theory Spec2Isabelle
  imports Main "HOL-Library.Word" "HOL-Library.Signed_Division"
begin

section \<open>The value model (sexpr/types.go)\<close>

text \<open>
  The Go interface \<^verbatim>\<open>SExpr\<close> has eight implementations. \<^verbatim>\<open>Number.Value\<close> is an
  \<^verbatim>\<open>int64\<close>, modelled as a 64-bit word read as two's complement. A \<^verbatim>\<open>Func\<close> holds
  its parameters (each a \<^verbatim>\<open>Symbol\<close>, that is a name), its body and a pointer to the
  environment it was created in; the pointer is an address into the store of
  environments defined below. A \<^verbatim>\<open>Primitive\<close> holds a name and a Go function value;
  the only function values the repository ever stores there are the seventeen
  procedures of interpreter/primitives.go, enumerated by \<open>native\<close>
  (\<open>fn_primAdd\<close> is the function value \<^verbatim>\<open>primAdd\<close>, and so on).
\<close>

datatype native =
    fn_primAdd | fn_primSub | fn_primMul | fn_primDiv
  | fn_primEq | fn_primLt | fn_primGt | fn_primLte | fn_primGte
  | fn_primList | fn_primCar | fn_primCdr | fn_primCons
  | fn_primIsNumber | fn_primIsSymbol | fn_primIsList | fn_primIsNull

datatype sexpr =
    Number "64 word"
  | Symbol string
  | String string
  | Bool bool
  | Nil
  | List "sexpr list"
  | Func "string list" sexpr nat
  | Primitive string native

section \<open>Errors\<close>

text \<open>
  Go errors are messages built by \<^verbatim>\<open>fmt.Errorf\<close>. Each constructor stands for the
  messages of one shape and carries the values interpolated into them:
  \<^item> \<open>UndefinedVariable n\<close>: \<^verbatim>\<open>undefined variable: n\<close>
  \<^item> \<open>CannotEvaluate e\<close>: \<^verbatim>\<open>cannot evaluate: e\<close>
  \<^item> \<open>ArityError c k g\<close>: \<^verbatim>\<open>c requires k argument(s), got g\<close> for a special form,
    \<^verbatim>\<open>c: requires k argument(s), got g\<close> for a primitive, and
    \<^verbatim>\<open>function expects k arguments, got g\<close> when \<open>c\<close> is \<open>''function''\<close>
  \<^item> \<open>DefineNotSymbol\<close>: \<^verbatim>\<open>define: first argument must be a symbol\<close>
  \<^item> \<open>LambdaParamsNotList\<close>: \<^verbatim>\<open>lambda: parameters must be a list\<close>
  \<^item> \<open>LambdaParamNotSymbol p\<close>: \<^verbatim>\<open>lambda: parameter must be a symbol, got p\<close>
  \<^item> \<open>NotCallable v\<close>: \<^verbatim>\<open>not a function: v\<close>
  \<^item> \<open>AtLeastOneArgument c\<close>: \<^verbatim>\<open>c: requires at least 1 argument\<close>
  \<^item> \<open>ExpectedNumber c v\<close>: \<^verbatim>\<open>c: expected number, got v\<close>
  \<^item> \<open>ExpectedNumbers c\<close>: \<^verbatim>\<open>c: expected numbers\<close>
  \<^item> \<open>ExpectedList c v\<close>: \<^verbatim>\<open>c: expected list, got v\<close>
  \<^item> \<open>ConsNotList v\<close>: \<^verbatim>\<open>cons: second argument must be a list, got v\<close>
  \<^item> \<open>EmptyListError c\<close>: \<^verbatim>\<open>c: cannot take c of empty list\<close>
  \<^item> \<open>DivisionByZero\<close>: \<^verbatim>\<open>/: division by zero\<close>
\<close>

datatype error =
    UndefinedVariable string
  | CannotEvaluate sexpr
  | ArityError string int int
  | DefineNotSymbol
  | LambdaParamsNotList
  | LambdaParamNotSymbol sexpr
  | NotCallable sexpr
  | AtLeastOneArgument string
  | ExpectedNumber string sexpr
  | ExpectedNumbers string
  | ExpectedList string sexpr
  | ConsNotList sexpr
  | EmptyListError string
  | DivisionByZero

section \<open>Environments (interpreter/env.go)\<close>

text \<open>
  An \<^verbatim>\<open>Env\<close> is a Go map of bindings and a pointer to the parent (\<^verbatim>\<open>nil\<close> at the
  root). Environments are shared by pointer and mutated in place, so they live in a
  store: the list of all environments allocated so far, an address being an index.
  \<^verbatim>\<open>NewEnv\<close> allocates at the end of the store and returns the new address.
  \<^verbatim>\<open>Define\<close> writes one entry of the map of its receiver; on an address outside
  the store, which is no Go pointer, the model leaves the store as it is.
\<close>

record Env =
  bindings :: "string \<rightharpoonup> sexpr"
  parent :: "nat option"

type_synonym store = "Env list"

definition NewEnv :: "nat option \<Rightarrow> store \<Rightarrow> nat \<times> store" where
  "NewEnv p h = (length h, h @ [\<lparr>bindings = Map.empty, parent = p\<rparr>])"

definition Define :: "nat \<Rightarrow> string \<Rightarrow> sexpr \<Rightarrow> store \<Rightarrow> store" where
  "Define e name v h = h[e := (h ! e)\<lparr>bindings := (bindings (h ! e))(name \<mapsto> v)\<rparr>]"

text \<open>
  \<^verbatim>\<open>Set\<close> and \<^verbatim>\<open>Lookup\<close> follow the parent pointers recursively. The recursion is
  the source's, with no bound added: where it does not end (a store whose parent
  pointers form a cycle, which Go code cannot build) or the address is outside the
  store (no Go pointer), there is no result. \<^verbatim>\<open>Set\<close> returns the Go \<^verbatim>\<open>error\<close>
  (\<open>None\<close> for \<^verbatim>\<open>nil\<close>) beside the store; it is \<open>Set_env\<close> here, \<open>Set\<close> being
  the name of a library theory.
\<close>

partial_function (option) Set_env :: "store \<Rightarrow> nat \<Rightarrow> string \<Rightarrow> sexpr \<Rightarrow> (error option \<times> store) option" where
  "Set_env h e name v =
     (if e < length h then
        (case bindings (h ! e) name of
           Some old \<Rightarrow> Some (None, Define e name v h)
         | None \<Rightarrow>
            (case parent (h ! e) of
               Some p \<Rightarrow> Set_env h p name v
             | None \<Rightarrow> Some (Some (UndefinedVariable name), h)))
      else None)"

partial_function (option) Lookup :: "store \<Rightarrow> nat \<Rightarrow> string \<Rightarrow> (error + sexpr) option" where
  "Lookup h e name =
     (if e < length h then
        (case bindings (h ! e) name of
           Some v \<Rightarrow> Some (Inr v)
         | None \<Rightarrow>
            (case parent (h ! e) of
               Some p \<Rightarrow> Lookup h p name
             | None \<Rightarrow> Some (Inl (UndefinedVariable name))))
      else None)"

declare Set_env.simps [code] Lookup.simps [code]

definition Extend :: "nat \<Rightarrow> store \<Rightarrow> nat \<times> store" where
  "Extend e h = NewEnv (Some e) h"

section \<open>Primitive procedures (interpreter/primitives.go)\<close>

text \<open>
  Every primitive takes the evaluated arguments and the calling environment, which
  none of them reads or writes: each is a function of the argument list alone.
  Arithmetic on \<^verbatim>\<open>int64\<close> wraps around; Go's \<^verbatim>\<open>/\<close> truncates towards zero, and
  the one overflowing quotient (the least \<^verbatim>\<open>int64\<close> by \<open>-1\<close>) wraps as well.
\<close>

definition int64_div :: "64 word \<Rightarrow> 64 word \<Rightarrow> 64 word" where
  "int64_div a b = word_of_int (sint a sdiv sint b)"

fun primAdd_loop :: "64 word \<Rightarrow> sexpr list \<Rightarrow> error + sexpr" where
  "primAdd_loop acc [] = Inr (Number acc)"
| "primAdd_loop acc (Number n # args) = primAdd_loop (acc + n) args"
| "primAdd_loop acc (arg # args) = Inl (ExpectedNumber ''+'' arg)"

definition primAdd :: "sexpr list \<Rightarrow> error + sexpr" where
  "primAdd args = (if length args = 0 then Inr (Number 0) else primAdd_loop 0 args)"

fun primSub_loop :: "64 word \<Rightarrow> sexpr list \<Rightarrow> error + sexpr" where
  "primSub_loop result [] = Inr (Number result)"
| "primSub_loop result (Number n # args) = primSub_loop (result - n) args"
| "primSub_loop result (arg # args) = Inl (ExpectedNumber ''-'' arg)"

fun primSub :: "sexpr list \<Rightarrow> error + sexpr" where
  "primSub [] = Inl (AtLeastOneArgument ''-'')"
| "primSub (Number first # rest) =
     (if length (Number first # rest) = 1 then Inr (Number (- first))
      else primSub_loop first rest)"
| "primSub (arg # rest) = Inl (ExpectedNumber ''-'' arg)"

fun primMul_loop :: "64 word \<Rightarrow> sexpr list \<Rightarrow> error + sexpr" where
  "primMul_loop acc [] = Inr (Number acc)"
| "primMul_loop acc (Number n # args) = primMul_loop (acc * n) args"
| "primMul_loop acc (arg # args) = Inl (ExpectedNumber ''*'' arg)"

definition primMul :: "sexpr list \<Rightarrow> error + sexpr" where
  "primMul args = (if length args = 0 then Inr (Number 1) else primMul_loop 1 args)"

fun primDiv_loop :: "64 word \<Rightarrow> sexpr list \<Rightarrow> error + sexpr" where
  "primDiv_loop result [] = Inr (Number result)"
| "primDiv_loop result (Number n # args) =
     (if n = 0 then Inl DivisionByZero else primDiv_loop (int64_div result n) args)"
| "primDiv_loop result (arg # args) = Inl (ExpectedNumber ''/'' arg)"

fun primDiv :: "sexpr list \<Rightarrow> error + sexpr" where
  "primDiv [] = Inl (AtLeastOneArgument ''/'')"
| "primDiv (Number first # rest) =
     (if length (Number first # rest) = 1 then
        (if first = 0 then Inl DivisionByZero else Inr (Number (int64_div 1 first)))
      else primDiv_loop first rest)"
| "primDiv (arg # rest) = Inl (ExpectedNumber ''/'' arg)"

text \<open>The comparisons read their operands as signed.\<close>

definition primEq :: "sexpr list \<Rightarrow> error + sexpr" where
  "primEq args =
     (if length args \<noteq> 2 then Inl (ArityError ''='' 2 (int (length args)))
      else (case (args ! 0, args ! 1) of
              (Number a, Number b) \<Rightarrow> Inr (Bool (a = b))
            | _ \<Rightarrow> Inl (ExpectedNumbers ''='')))"

definition primLt :: "sexpr list \<Rightarrow> error + sexpr" where
  "primLt args =
     (if length args \<noteq> 2 then Inl (ArityError ''<'' 2 (int (length args)))
      else (case (args ! 0, args ! 1) of
              (Number a, Number b) \<Rightarrow> Inr (Bool (sint a < sint b))
            | _ \<Rightarrow> Inl (ExpectedNumbers ''<'')))"

definition primGt :: "sexpr list \<Rightarrow> error + sexpr" where
  "primGt args =
     (if length args \<noteq> 2 then Inl (ArityError ''>'' 2 (int (length args)))
      else (case (args ! 0, args ! 1) of
              (Number a, Number b) \<Rightarrow> Inr (Bool (sint a > sint b))
            | _ \<Rightarrow> Inl (ExpectedNumbers ''>'')))"

definition primLte :: "sexpr list \<Rightarrow> error + sexpr" where
  "primLte args =
     (if length args \<noteq> 2 then Inl (ArityError ''<='' 2 (int (length args)))
      else (case (args ! 0, args ! 1) of
              (Number a, Number b) \<Rightarrow> Inr (Bool (sint a \<le> sint b))
            | _ \<Rightarrow> Inl (ExpectedNumbers ''<='')))"

definition primGte :: "sexpr list \<Rightarrow> error + sexpr" where
  "primGte args =
     (if length args \<noteq> 2 then Inl (ArityError ''>='' 2 (int (length args)))
      else (case (args ! 0, args ! 1) of
              (Number a, Number b) \<Rightarrow> Inr (Bool (sint a \<ge> sint b))
            | _ \<Rightarrow> Inl (ExpectedNumbers ''>='')))"

definition primList :: "sexpr list \<Rightarrow> error + sexpr" where
  "primList args = Inr (List args)"

definition primCar :: "sexpr list \<Rightarrow> error + sexpr" where
  "primCar args =
     (if length args \<noteq> 1 then Inl (ArityError ''car'' 1 (int (length args)))
      else (case args ! 0 of
              List elements \<Rightarrow>
                (if length elements = 0 then Inl (EmptyListError ''car'')
                 else Inr (elements ! 0))
            | arg \<Rightarrow> Inl (ExpectedList ''car'' arg)))"

definition primCdr :: "sexpr list \<Rightarrow> error + sexpr" where
  "primCdr args =
     (if length args \<noteq> 1 then Inl (ArityError ''cdr'' 1 (int (length args)))
      else (case args ! 0 of
              List elements \<Rightarrow>
                (if length elements = 0 then Inl (EmptyListError ''cdr'')
                 else Inr (List (drop 1 elements)))
            | arg \<Rightarrow> Inl (ExpectedList ''cdr'' arg)))"

definition primCons :: "sexpr list \<Rightarrow> error + sexpr" where
  "primCons args =
     (if length args \<noteq> 2 then Inl (ArityError ''cons'' 2 (int (length args)))
      else (case args ! 1 of
              List elements \<Rightarrow> Inr (List (args ! 0 # elements))
            | arg \<Rightarrow> Inl (ConsNotList arg)))"

definition primIsNumber :: "sexpr list \<Rightarrow> error + sexpr" where
  "primIsNumber args =
     (if length args \<noteq> 1 then Inl (ArityError ''number?'' 1 (int (length args)))
      else Inr (Bool (case args ! 0 of Number n \<Rightarrow> True | _ \<Rightarrow> False)))"

definition primIsSymbol :: "sexpr list \<Rightarrow> error + sexpr" where
  "primIsSymbol args =
     (if length args \<noteq> 1 then Inl (ArityError ''symbol?'' 1 (int (length args)))
      else Inr (Bool (case args ! 0 of Symbol n \<Rightarrow> True | _ \<Rightarrow> False)))"

definition primIsList :: "sexpr list \<Rightarrow> error + sexpr" where
  "primIsList args =
     (if length args \<noteq> 1 then Inl (ArityError ''list?'' 1 (int (length args)))
      else Inr (Bool (case args ! 0 of List l \<Rightarrow> True | _ \<Rightarrow> False)))"

definition primIsNull :: "sexpr list \<Rightarrow> error + sexpr" where
  "primIsNull args =
     (if length args \<noteq> 1 then Inl (ArityError ''null?'' 1 (int (length args)))
      else (case args ! 0 of
              List elements \<Rightarrow> Inr (Bool (length elements = 0))
            | _ \<Rightarrow> Inr (Bool False)))"

text \<open>Calling the function value a \<^verbatim>\<open>Primitive\<close> holds.\<close>

fun call_native :: "native \<Rightarrow> sexpr list \<Rightarrow> error + sexpr" where
  "call_native fn_primAdd = primAdd"
| "call_native fn_primSub = primSub"
| "call_native fn_primMul = primMul"
| "call_native fn_primDiv = primDiv"
| "call_native fn_primEq = primEq"
| "call_native fn_primLt = primLt"
| "call_native fn_primGt = primGt"
| "call_native fn_primLte = primLte"
| "call_native fn_primGte = primGte"
| "call_native fn_primList = primList"
| "call_native fn_primCar = primCar"
| "call_native fn_primCdr = primCdr"
| "call_native fn_primCons = primCons"
| "call_native fn_primIsNumber = primIsNumber"
| "call_native fn_primIsSymbol = primIsSymbol"
| "call_native fn_primIsList = primIsList"
| "call_native fn_primIsNull = primIsNull"

definition makePrimitive :: "string \<Rightarrow> native \<Rightarrow> sexpr" where
  "makePrimitive name fn = Primitive name fn"

definition LoadPrimitives :: "nat \<Rightarrow> store \<Rightarrow> store" where
  "LoadPrimitives env h =
     fold (\<lambda>(name, fn). Define env name (makePrimitive name fn))
       [(''+'', fn_primAdd), (''-'', fn_primSub), (''*'', fn_primMul), (''/'', fn_primDiv),
        (''='', fn_primEq), (''<'', fn_primLt), (''>'', fn_primGt),
        (''<='', fn_primLte), (''>='', fn_primGte),
        (''list'', fn_primList), (''car'', fn_primCar), (''cdr'', fn_primCdr),
        (''cons'', fn_primCons),
        (''number?'', fn_primIsNumber), (''symbol?'', fn_primIsSymbol),
        (''list?'', fn_primIsList), (''null?'', fn_primIsNull)] h"

section \<open>The evaluator\<close>

text \<open>
  \<^verbatim>\<open>Eval\<close> returns a value or an error, and mutates environments on the way
  (\<^verbatim>\<open>define\<close>, the environment of a call): a result is the value or error together
  with the store the evaluation leaves, also when it fails. Evaluation need not end
  (a function may call itself forever), so \<^verbatim>\<open>Eval\<close> takes fuel, the number of nested
  calls of \<^verbatim>\<open>Eval\<close> it may make, and \<open>None\<close> is "no result within the fuel". The
  functions \<^verbatim>\<open>Eval\<close> calls and that call it back take that recursive call as their
  first argument \<open>ev\<close>: it is \<^verbatim>\<open>Eval\<close> with the fuel that is left.
\<close>

type_synonym result = "(error + sexpr) \<times> store"

type_synonym evaluator = "sexpr \<Rightarrow> nat \<Rightarrow> store \<Rightarrow> result option"

fun isTruthy :: "sexpr \<Rightarrow> bool" where
  "isTruthy (Bool v) = v"
| "isTruthy Nil = False"
| "isTruthy _ = True"

definition evalDefine :: "evaluator \<Rightarrow> sexpr list \<Rightarrow> nat \<Rightarrow> store \<Rightarrow> result option" where
  "evalDefine ev elements env h =
     (if length elements \<noteq> 3 then
        Some (Inl (ArityError ''define'' 2 (int (length elements) - 1)), h)
      else
        (case elements ! 1 of
           Symbol name \<Rightarrow>
             (case ev (elements ! 2) env h of
                None \<Rightarrow> None
              | Some (Inl err, h') \<Rightarrow> Some (Inl err, h')
              | Some (Inr v, h') \<Rightarrow> Some (Inr v, Define env name v h'))
         | _ \<Rightarrow> Some (Inl DefineNotSymbol, h)))"

text \<open>The loop of \<^verbatim>\<open>evalLambda\<close> that collects the parameter names.\<close>

fun evalLambda_params :: "sexpr list \<Rightarrow> error + string list" where
  "evalLambda_params [] = Inr []"
| "evalLambda_params (Symbol name # ps) =
     (case evalLambda_params ps of Inl err \<Rightarrow> Inl err | Inr params \<Rightarrow> Inr (name # params))"
| "evalLambda_params (p # ps) = Inl (LambdaParamNotSymbol p)"

definition evalLambda :: "sexpr list \<Rightarrow> nat \<Rightarrow> store \<Rightarrow> result" where
  "evalLambda elements env h =
     (if length elements \<noteq> 3 then
        (Inl (ArityError ''lambda'' 2 (int (length elements) - 1)), h)
      else
        (case elements ! 1 of
           List paramsList \<Rightarrow>
             (case evalLambda_params paramsList of
                Inl err \<Rightarrow> (Inl err, h)
              | Inr params \<Rightarrow> (Inr (Func params (elements ! 2) env), h))
         | _ \<Rightarrow> (Inl LambdaParamsNotList, h)))"

definition evalIf :: "evaluator \<Rightarrow> sexpr list \<Rightarrow> nat \<Rightarrow> store \<Rightarrow> result option" where
  "evalIf ev elements env h =
     (if length elements \<noteq> 4 then
        Some (Inl (ArityError ''if'' 3 (int (length elements) - 1)), h)
      else
        (case ev (elements ! 1) env h of
           None \<Rightarrow> None
         | Some (Inl err, h') \<Rightarrow> Some (Inl err, h')
         | Some (Inr test, h') \<Rightarrow>
             (if isTruthy test then ev (elements ! 2) env h'
              else ev (elements ! 3) env h')))"

definition evalQuote :: "sexpr list \<Rightarrow> nat \<Rightarrow> store \<Rightarrow> result" where
  "evalQuote elements env h =
     (if length elements \<noteq> 2 then
        (Inl (ArityError ''quote'' 1 (int (length elements) - 1)), h)
      else (Inr (elements ! 1), h))"

text \<open>The loop of \<^verbatim>\<open>evalApply\<close> that evaluates the arguments.\<close>

fun evalApply_args :: "evaluator \<Rightarrow> sexpr list \<Rightarrow> nat \<Rightarrow> store \<Rightarrow> ((error + sexpr list) \<times> store) option" where
  "evalApply_args ev [] env h = Some (Inr [], h)"
| "evalApply_args ev (arg # rest) env h =
     (case ev arg env h of
        None \<Rightarrow> None
      | Some (Inl err, h') \<Rightarrow> Some (Inl err, h')
      | Some (Inr v, h') \<Rightarrow>
          (case evalApply_args ev rest env h' of
             None \<Rightarrow> None
           | Some (Inl err, h'') \<Rightarrow> Some (Inl err, h'')
           | Some (Inr args, h'') \<Rightarrow> Some (Inr (v # args), h'')))"

text \<open>
  \<^verbatim>\<open>applyFunc\<close> takes the \<^verbatim>\<open>Func\<close> as its three fields. The parameters are bound in
  order in the new environment, so of two parameters with one name the later one
  stays.
\<close>

definition applyFunc :: "evaluator \<Rightarrow> string list \<Rightarrow> sexpr \<Rightarrow> nat \<Rightarrow> sexpr list \<Rightarrow> store \<Rightarrow> result option" where
  "applyFunc ev params body fenv args h =
     (if length args \<noteq> length params then
        Some (Inl (ArityError ''function'' (int (length params)) (int (length args))), h)
      else
        (case Extend fenv h of
           (funcEnv, h') \<Rightarrow>
             ev body funcEnv
               (fold (\<lambda>(param, arg). Define funcEnv param arg) (zip params args) h')))"

definition evalApply :: "evaluator \<Rightarrow> sexpr list \<Rightarrow> nat \<Rightarrow> store \<Rightarrow> result option" where
  "evalApply ev elements env h =
     (case ev (elements ! 0) env h of
        None \<Rightarrow> None
      | Some (Inl err, h') \<Rightarrow> Some (Inl err, h')
      | Some (Inr fn, h') \<Rightarrow>
          (case evalApply_args ev (drop 1 elements) env h' of
             None \<Rightarrow> None
           | Some (Inl err, h'') \<Rightarrow> Some (Inl err, h'')
           | Some (Inr args, h'') \<Rightarrow>
               (case fn of
                  Primitive name f \<Rightarrow> Some (call_native f args, h'')
                | Func params body fenv \<Rightarrow> applyFunc ev params body fenv args h''
                | _ \<Rightarrow> Some (Inl (NotCallable fn), h''))))"

definition evalList :: "evaluator \<Rightarrow> sexpr list \<Rightarrow> nat \<Rightarrow> store \<Rightarrow> result option" where
  "evalList ev elements env h =
     (if length elements = 0 then Some (Inr Nil, h)
      else
        (case elements ! 0 of
           Symbol name \<Rightarrow>
             (if name = ''define'' then evalDefine ev elements env h
              else if name = ''lambda'' then Some (evalLambda elements env h)
              else if name = ''if'' then evalIf ev elements env h
              else if name = ''quote'' then Some (evalQuote elements env h)
              else evalApply ev elements env h)
         | _ \<Rightarrow> evalApply ev elements env h))"

primrec Eval :: "nat \<Rightarrow> sexpr \<Rightarrow> nat \<Rightarrow> store \<Rightarrow> result option" where
  "Eval 0 expr env h = None"
| "Eval (Suc n) expr env h =
     (case expr of
        Number v \<Rightarrow> Some (Inr expr, h)
      | String v \<Rightarrow> Some (Inr expr, h)
      | Bool v \<Rightarrow> Some (Inr expr, h)
      | Nil \<Rightarrow> Some (Inr expr, h)
      | Symbol name \<Rightarrow>
          (case Lookup h env name of None \<Rightarrow> None | Some r \<Rightarrow> Some (r, h))
      | List elements \<Rightarrow> evalList (Eval n) elements env h
      | _ \<Rightarrow> Some (Inl (CannotEvaluate expr), h))"

text \<open>
  \<open>evaluates expr env h r\<close>: \<^verbatim>\<open>Eval(expr, env)\<close>, started on the store \<open>h\<close>, returns,
  and \<open>r\<close> is what it returns and the store it leaves.
\<close>

definition evaluates :: "sexpr \<Rightarrow> nat \<Rightarrow> store \<Rightarrow> result \<Rightarrow> bool" where
  "evaluates expr env h r = (\<exists>n. Eval n expr env h = Some r)"

section \<open>Vocabulary for the properties\<close>

text \<open>
  Go code builds environments with \<^verbatim>\<open>NewEnv\<close> only, and never reassigns
  \<^verbatim>\<open>parent\<close>: a parent is allocated before its children. \<open>wf_store\<close> says so of a
  store: every parent address is smaller than the address of the child.
\<close>

fun wf_from :: "nat \<Rightarrow> store \<Rightarrow> bool" where
  "wf_from i [] = True"
| "wf_from i (e # es) =
     ((case parent e of None \<Rightarrow> True | Some p \<Rightarrow> p < i) \<and> wf_from (Suc i) es)"

definition wf_store :: "store \<Rightarrow> bool" where
  "wf_store h = wf_from 0 h"

text \<open>
  \<open>chain h e\<close> lists the scopes visible from \<open>e\<close>, innermost first: \<open>e\<close>, its
  parent, and so on to the root. (It stops at a parent that is not older than its
  child, which a well-formed store does not have.) \<open>binds h name s\<close>: scope \<open>s\<close>
  itself has a binding of \<open>name\<close>.
\<close>

function chain :: "store \<Rightarrow> nat \<Rightarrow> nat list" where
  "chain h e =
     e # (case parent (h ! e) of
            Some p \<Rightarrow> (if p < e then chain h p else [])
          | None \<Rightarrow> [])"
  by pat_completeness auto
termination
  by (relation "measure (\<lambda>(h, e). e)") auto

declare chain.simps [simp del]

definition binds :: "store \<Rightarrow> string \<Rightarrow> nat \<Rightarrow> bool" where
  "binds h name e = (bindings (h ! e) name \<noteq> None)"

text \<open>
  \<open>ev_le ev ev'\<close>: whatever \<open>ev\<close> returns, \<open>ev'\<close> returns too (as \<^verbatim>\<open>Eval\<close> does
  with more fuel).
\<close>

definition ev_le :: "evaluator \<Rightarrow> evaluator \<Rightarrow> bool" where
  "ev_le ev ev' = (\<forall>e env h r. ev e env h = Some r \<longrightarrow> ev' e env h = Some r)"

text \<open>
  \<open>args_evaluate as env h vs h'\<close>: the expressions \<open>as\<close> evaluate one after the
  other, left to right, each on the store its predecessor leaves, to the values
  \<open>vs\<close>, and \<open>h'\<close> is the store after the last. \<open>is_special_form f\<close>: the head \<open>f\<close>
  is one of the four reserved symbols. \<open>is_callable v\<close>: \<open>v\<close> is a \<^verbatim>\<open>Primitive\<close> or
  a \<^verbatim>\<open>Func\<close>.
\<close>

fun args_evaluate :: "sexpr list \<Rightarrow> nat \<Rightarrow> store \<Rightarrow> sexpr list \<Rightarrow> store \<Rightarrow> bool" where
  "args_evaluate [] env h vs h' = (vs = [] \<and> h' = h)"
| "args_evaluate (a # as) env h vs h' =
     (\<exists>v vs' h1. vs = v # vs' \<and> evaluates a env h (Inr v, h1) \<and> args_evaluate as env h1 vs' h')"

definition is_special_form :: "sexpr \<Rightarrow> bool" where
  "is_special_form f =
     (f = Symbol ''define'' \<or> f = Symbol ''lambda'' \<or> f = Symbol ''if'' \<or> f = Symbol ''quote'')"

fun is_callable :: "sexpr \<Rightarrow> bool" where
  "is_callable (Primitive name f) = True"
| "is_callable (Func params body fenv) = True"
| "is_callable _ = False"

section \<open>Environments: auxiliary facts\<close>

lemma wf_from_nth:
  "wf_from i h \<Longrightarrow> a < length h \<Longrightarrow> parent (h ! a) = Some p \<Longrightarrow> p < i + a"
proof (induction h arbitrary: i a)
  case Nil
  then show ?case by simp
next
  case (Cons e es)
  show ?case
  proof (cases a)
    case 0
    with Cons.prems show ?thesis by simp
  next
    case (Suc a')
    with Cons.prems have "p < Suc i + a'"
      by (intro Cons.IH) simp_all
    with Suc show ?thesis by simp
  qed
qed

lemma wf_store_parent:
  "wf_store h \<Longrightarrow> a < length h \<Longrightarrow> parent (h ! a) = Some p \<Longrightarrow> p < a"
  using wf_from_nth [of 0 h a p] by (simp add: wf_store_def)

lemma Set_env_find:
  assumes wf: "wf_store h"
  shows "e < length h \<Longrightarrow>
    Set_env h e name v =
      Some (case find (binds h name) (chain h e) of
              Some s \<Rightarrow> (None, Define s name v h)
            | None \<Rightarrow> (Some (UndefinedVariable name), h))"
proof (induction e rule: less_induct)
  case (less e)
  show ?case
  proof (cases "bindings (h ! e) name")
    case (Some old)
    with less.prems show ?thesis
      by (subst Set_env.simps, subst chain.simps) (simp add: binds_def)
  next
    case None
    show ?thesis
    proof (cases "parent (h ! e)")
      case no_parent: None
      with None less.prems show ?thesis
        by (subst Set_env.simps, subst chain.simps) (simp add: binds_def)
    next
      case (Some p)
      with wf less.prems have p: "p < e" by (rule_tac wf_store_parent)
      with less.prems have "p < length h" by simp
      with p have "Set_env h p name v =
        Some (case find (binds h name) (chain h p) of
                Some s \<Rightarrow> (None, Define s name v h)
              | None \<Rightarrow> (Some (UndefinedVariable name), h))"
        by (rule less.IH)
      with None Some p less.prems show ?thesis
        by (subst Set_env.simps, subst chain.simps) (simp add: binds_def)
    qed
  qed
qed

lemma Lookup_find:
  assumes wf: "wf_store h"
  shows "e < length h \<Longrightarrow>
    Lookup h e name =
      Some (case find (binds h name) (chain h e) of
              Some s \<Rightarrow> Inr (the (bindings (h ! s) name))
            | None \<Rightarrow> Inl (UndefinedVariable name))"
proof (induction e rule: less_induct)
  case (less e)
  show ?case
  proof (cases "bindings (h ! e) name")
    case (Some old)
    with less.prems show ?thesis
      by (subst Lookup.simps, subst chain.simps) (simp add: binds_def)
  next
    case None
    show ?thesis
    proof (cases "parent (h ! e)")
      case no_parent: None
      with None less.prems show ?thesis
        by (subst Lookup.simps, subst chain.simps) (simp add: binds_def)
    next
      case (Some p)
      with wf less.prems have p: "p < e" by (rule_tac wf_store_parent)
      with less.prems have "p < length h" by simp
      with p have "Lookup h p name =
        Some (case find (binds h name) (chain h p) of
              Some s \<Rightarrow> Inr (the (bindings (h ! s) name))
            | None \<Rightarrow> Inl (UndefinedVariable name))"
        by (rule less.IH)
      with None Some p less.prems show ?thesis
        by (subst Lookup.simps, subst chain.simps) (simp add: binds_def)
    qed
  qed
qed

lemma Define_nth_other: "a \<noteq> e \<Longrightarrow> Define e name v h ! a = h ! a"
  by (simp add: Define_def)

lemma Define_nth_same:
  "e < length h \<Longrightarrow>
   Define e name v h ! e = (h ! e)\<lparr>bindings := (bindings (h ! e))(name \<mapsto> v)\<rparr>"
  by (simp add: Define_def)

lemma length_Define: "length (Define e name v h) = length h"
  by (simp add: Define_def)

lemma Lookup_bound:
  "e < length h \<Longrightarrow> bindings (h ! e) name = Some v \<Longrightarrow> Lookup h e name = Some (Inr v)"
  by (subst Lookup.simps) simp

lemma Lookup_parent:
  "e < length h \<Longrightarrow> bindings (h ! e) name = None \<Longrightarrow> parent (h ! e) = Some p \<Longrightarrow>
   Lookup h e name = Lookup h p name"
  by (subst Lookup.simps) simp

section \<open>More fuel never changes a result\<close>

lemma ev_leD: "ev_le ev ev' \<Longrightarrow> ev e env h = Some r \<Longrightarrow> ev' e env h = Some r"
  unfolding ev_le_def by blast

lemma evalDefine_mono:
  assumes le: "ev_le ev ev'" and d: "evalDefine ev es env h = Some r"
  shows "evalDefine ev' es env h = Some r"
proof (cases "ev (es ! 2) env h")
  case None
  with d show ?thesis
    by (auto simp: evalDefine_def split: if_splits sexpr.splits)
next
  case (Some p)
  then have "ev' (es ! 2) env h = Some p"
    using le ev_leD by blast
  with Some have "evalDefine ev' es env h = evalDefine ev es env h"
    by (simp add: evalDefine_def split: sexpr.splits)
  with d show ?thesis by simp
qed

lemma evalIf_mono:
  assumes le: "ev_le ev ev'" and d: "evalIf ev es env h = Some r"
  shows "evalIf ev' es env h = Some r"
proof (cases "length es \<noteq> 4")
  case True
  then have "evalIf ev' es env h = evalIf ev es env h"
    by (simp add: evalIf_def)
  with d show ?thesis by simp
next
  case len: False
  with d obtain x h1 where t: "ev (es ! 1) env h = Some (x, h1)"
    by (cases "ev (es ! 1) env h") (auto simp: evalIf_def)
  then have t': "ev' (es ! 1) env h = Some (x, h1)"
    using le ev_leD by blast
  show ?thesis
  proof (cases x)
    case (Inl err)
    with len t t' have "evalIf ev' es env h = evalIf ev es env h"
      by (simp add: evalIf_def)
    with d show ?thesis by simp
  next
    case (Inr test)
    with len t d
    have "ev (if isTruthy test then es ! 2 else es ! 3) env h1 = Some r"
      by (simp add: evalIf_def split: if_splits)
    then have "ev' (if isTruthy test then es ! 2 else es ! 3) env h1 = Some r"
      using le ev_leD by blast
    with len t' Inr show ?thesis
      by (simp add: evalIf_def split: if_splits)
  qed
qed

lemma evalApply_args_mono:
  assumes le: "ev_le ev ev'"
  shows "evalApply_args ev as env h = Some r \<Longrightarrow> evalApply_args ev' as env h = Some r"
proof (induction as arbitrary: h r)
  case Nil
  then show ?case by simp
next
  case (Cons a as)
  from Cons.prems obtain x h1 where a: "ev a env h = Some (x, h1)"
    by (cases "ev a env h") auto
  then have a': "ev' a env h = Some (x, h1)"
    using le ev_leD by blast
  show ?case
  proof (cases x)
    case (Inl err)
    with a a' have "evalApply_args ev' (a # as) env h = evalApply_args ev (a # as) env h"
      by simp
    with Cons.prems show ?thesis by simp
  next
    case (Inr v)
    with Cons.prems a obtain q where rest: "evalApply_args ev as env h1 = Some q"
      by (cases "evalApply_args ev as env h1") auto
    then have "evalApply_args ev' as env h1 = Some q"
      by (rule Cons.IH)
    with a a' Inr rest
    have "evalApply_args ev' (a # as) env h = evalApply_args ev (a # as) env h"
      by simp
    with Cons.prems show ?thesis by simp
  qed
qed

lemma applyFunc_mono:
  assumes le: "ev_le ev ev'" and d: "applyFunc ev ps body fenv as h = Some r"
  shows "applyFunc ev' ps body fenv as h = Some r"
proof (cases "length as \<noteq> length ps")
  case True
  with d show ?thesis by (simp add: applyFunc_def)
next
  case False
  obtain c h1 where e: "Extend fenv h = (c, h1)" by (cases "Extend fenv h")
  with False d
  have "ev body c (fold (\<lambda>(param, arg). Define c param arg) (zip ps as) h1) = Some r"
    by (simp add: applyFunc_def)
  then have "ev' body c (fold (\<lambda>(param, arg). Define c param arg) (zip ps as) h1) = Some r"
    using le ev_leD by blast
  with False e show ?thesis by (simp add: applyFunc_def)
qed

lemma evalApply_mono:
  assumes le: "ev_le ev ev'" and d: "evalApply ev es env h = Some r"
  shows "evalApply ev' es env h = Some r"
proof -
  from d obtain x h1 where f: "ev (es ! 0) env h = Some (x, h1)"
    by (cases "ev (es ! 0) env h") (auto simp: evalApply_def)
  then have f': "ev' (es ! 0) env h = Some (x, h1)"
    using le ev_leD by blast
  show ?thesis
  proof (cases x)
    case (Inl err)
    with f f' have "evalApply ev' es env h = evalApply ev es env h"
      by (simp add: evalApply_def)
    with d show ?thesis by simp
  next
    case (Inr fn)
    with d f obtain y h2 where
      args: "evalApply_args ev (drop 1 es) env h1 = Some (y, h2)"
      by (cases "evalApply_args ev (drop 1 es) env h1") (auto simp: evalApply_def)
    then have args': "evalApply_args ev' (drop 1 es) env h1 = Some (y, h2)"
      using le by (rule_tac evalApply_args_mono)
    show ?thesis
    proof (cases y)
      case (Inl err)
      with f f' Inr args args' have "evalApply ev' es env h = evalApply ev es env h"
        by (simp add: evalApply_def)
      with d show ?thesis by simp
    next
      case vs: (Inr vs)
      show ?thesis
      proof (cases "\<exists>ps body fenv. fn = Func ps body fenv")
        case True
        then obtain ps body fenv where fn: "fn = Func ps body fenv" by blast
        with d f Inr args vs have "applyFunc ev ps body fenv vs h2 = Some r"
          by (simp add: evalApply_def)
        then have "applyFunc ev' ps body fenv vs h2 = Some r"
          using le by (rule_tac applyFunc_mono)
        with f' Inr args' vs fn show ?thesis by (simp add: evalApply_def)
      next
        case False
        with f f' Inr args args' vs
        have "evalApply ev' es env h = evalApply ev es env h"
          by (cases fn) (simp_all add: evalApply_def)
        with d show ?thesis by simp
      qed
    qed
  qed
qed

lemma evalList_mono:
  assumes le: "ev_le ev ev'" and d: "evalList ev es env h = Some r"
  shows "evalList ev' es env h = Some r"
  using d evalDefine_mono [OF le, of es env h r] evalIf_mono [OF le, of es env h r]
    evalApply_mono [OF le, of es env h r]
  by (simp add: evalList_def split: if_splits sexpr.splits)

lemma Eval_Suc_mono: "ev_le (Eval n) (Eval (Suc n))"
proof (induction n)
  case 0
  show ?case by (simp add: ev_le_def)
next
  case (Suc n)
  show ?case
    unfolding ev_le_def
  proof (intro allI impI)
    fix e env h r
    assume a: "Eval (Suc n) e env h = Some r"
    show "Eval (Suc (Suc n)) e env h = Some r"
    proof (cases e)
      case (List es)
      have 1: "Eval (Suc n) (List es) env h = evalList (Eval n) es env h"
        by simp
      have 2: "Eval (Suc (Suc n)) (List es) env h = evalList (Eval (Suc n)) es env h"
        by simp
      from a List have "evalList (Eval n) es env h = Some r"
        by (simp only: 1)
      then have "evalList (Eval (Suc n)) es env h = Some r"
        using Suc by (rule_tac evalList_mono)
      then show ?thesis by (simp only: List 2)
    qed (use a in simp_all)
  qed
qed

lemma Eval_mono: "n \<le> m \<Longrightarrow> Eval n e env h = Some r \<Longrightarrow> Eval m e env h = Some r"
proof (induction m)
  case 0
  then show ?case by simp
next
  case (Suc m)
  show ?case
  proof (cases "n = Suc m")
    case True
    with Suc.prems show ?thesis by simp
  next
    case False
    with Suc have "Eval m e env h = Some r" by simp
    then show ?thesis using Eval_Suc_mono [of m] ev_leD by blast
  qed
qed

lemma evaluates_det: "evaluates e env h r \<Longrightarrow> evaluates e env h r' \<Longrightarrow> r = r'"
proof -
  assume "evaluates e env h r" and "evaluates e env h r'"
  then obtain n m where n: "Eval n e env h = Some r" and m: "Eval m e env h = Some r'"
    by (auto simp: evaluates_def)
  have "Eval (max n m) e env h = Some r" using n by (rule Eval_mono [rotated]) simp
  moreover have "Eval (max n m) e env h = Some r'" using m by (rule Eval_mono [rotated]) simp
  ultimately show "r = r'" by simp
qed

section \<open>Self-evaluating values\<close>

lemma evaluates_literal:
  assumes "\<And>n. Eval (Suc n) e env h = Some (Inr e, h)"
  shows "evaluates e env h r = (r = (Inr e, h))"
proof
  assume "evaluates e env h r"
  then obtain n where n: "Eval n e env h = Some r" by (auto simp: evaluates_def)
  then obtain m where "n = Suc m" by (cases n) simp_all
  with n assms [of m] show "r = (Inr e, h)" by simp
next
  assume "r = (Inr e, h)"
  with assms [of 0] show "evaluates e env h r"
    unfolding evaluates_def by blast
qed

text \<open>
  Claim C9. A \<^verbatim>\<open>Number\<close> evaluates to itself in every environment and on every
  store, and leaves the store as it was; so do a \<^verbatim>\<open>String\<close>, a \<^verbatim>\<open>Bool\<close> and
  \<^verbatim>\<open>Nil\<close>. One unit of fuel is enough, the evaluation returns, and nothing else
  is ever returned. In particular the value is the same in any two environments.
\<close>

theorem Eval_self_evaluating:
  "Eval (Suc n) (Number w) env h = Some (Inr (Number w), h)
   \<and> Eval (Suc n) (String s) env h = Some (Inr (String s), h)
   \<and> Eval (Suc n) (Bool b) env h = Some (Inr (Bool b), h)
   \<and> Eval (Suc n) Nil env h = Some (Inr Nil, h)
   \<and> evaluates (Number w) env h r = (r = (Inr (Number w), h))
   \<and> evaluates (String s) env h r = (r = (Inr (String s), h))
   \<and> evaluates (Bool b) env h r = (r = (Inr (Bool b), h))
   \<and> evaluates Nil env h r = (r = (Inr Nil, h))
   \<and> map_option fst (Eval (Suc n) (Number w) env h)
       = map_option fst (Eval (Suc n') (Number w) env' h')"
  by (simp add: evaluates_literal)

section \<open>Special forms with the wrong number of operands\<close>

text \<open>
  Claim C8. A \<^verbatim>\<open>define\<close>, \<^verbatim>\<open>lambda\<close>, \<^verbatim>\<open>if\<close> or \<^verbatim>\<open>quote\<close> form whose number of
  operands is not the 2, 2, 3 or 1 the form takes fails with the arity error that
  names the form and the number of operands received; no operand is evaluated and
  the store is untouched.
\<close>

theorem special_form_arity:
  "(length ops \<noteq> 2 \<longrightarrow>
      Eval (Suc n) (List (Symbol ''define'' # ops)) env h
        = Some (Inl (ArityError ''define'' 2 (int (length ops))), h))
   \<and> (length ops \<noteq> 2 \<longrightarrow>
      Eval (Suc n) (List (Symbol ''lambda'' # ops)) env h
        = Some (Inl (ArityError ''lambda'' 2 (int (length ops))), h))
   \<and> (length ops \<noteq> 3 \<longrightarrow>
      Eval (Suc n) (List (Symbol ''if'' # ops)) env h
        = Some (Inl (ArityError ''if'' 3 (int (length ops))), h))
   \<and> (length ops \<noteq> 1 \<longrightarrow>
      Eval (Suc n) (List (Symbol ''quote'' # ops)) env h
        = Some (Inl (ArityError ''quote'' 1 (int (length ops))), h))"
  by (simp add: evalList_def evalDefine_def evalLambda_def evalIf_def evalQuote_def)

theorem special_form_arity_witness:
  "Eval 1 (List [Symbol ''define''])
      0 [\<lparr>bindings = Map.empty, parent = None\<rparr>]
     = Some (Inl (ArityError ''define'' 2 0), [\<lparr>bindings = Map.empty, parent = None\<rparr>])
   \<and> Eval 1 (List [Symbol ''lambda''])
      0 [\<lparr>bindings = Map.empty, parent = None\<rparr>]
     = Some (Inl (ArityError ''lambda'' 2 0), [\<lparr>bindings = Map.empty, parent = None\<rparr>])
   \<and> Eval 1 (List [Symbol ''if''])
      0 [\<lparr>bindings = Map.empty, parent = None\<rparr>]
     = Some (Inl (ArityError ''if'' 3 0), [\<lparr>bindings = Map.empty, parent = None\<rparr>])
   \<and> Eval 1 (List [Symbol ''quote''])
      0 [\<lparr>bindings = Map.empty, parent = None\<rparr>]
     = Some (Inl (ArityError ''quote'' 1 0), [\<lparr>bindings = Map.empty, parent = None\<rparr>])"
  using special_form_arity [of "[]" 0 0 "[\<lparr>bindings = Map.empty, parent = None\<rparr>]"]
  by simp

section \<open>Evaluation without fuel\<close>

lemma evaluatesI: "Eval n e env h = Some r \<Longrightarrow> evaluates e env h r"
  unfolding evaluates_def by blast

lemma evaluates_both:
  assumes "evaluates e1 env1 h1 r1" and "evaluates e2 env2 h2 r2"
  obtains n where "Eval n e1 env1 h1 = Some r1" and "Eval n e2 env2 h2 = Some r2"
proof -
  from assms obtain n1 n2 where 1: "Eval n1 e1 env1 h1 = Some r1"
    and 2: "Eval n2 e2 env2 h2 = Some r2"
    by (auto simp: evaluates_def)
  have "Eval (max n1 n2) e1 env1 h1 = Some r1"
    using 1 by (rule Eval_mono [rotated]) simp
  moreover have "Eval (max n1 n2) e2 env2 h2 = Some r2"
    using 2 by (rule Eval_mono [rotated]) simp
  ultimately show thesis by (rule that)
qed

lemma Eval_det:
  assumes "Eval n e env h = Some r" and "evaluates e env h r'"
  shows "r' = r"
  using assms evaluates_det evaluatesI by blast

lemma evaluates_List:
  "evaluates (List es) env h r = (\<exists>n. evalList (Eval n) es env h = Some r)"
proof
  assume "evaluates (List es) env h r"
  then obtain n where n: "Eval n (List es) env h = Some r"
    by (auto simp: evaluates_def)
  then obtain m where "n = Suc m" by (cases n) simp_all
  with n have "evalList (Eval m) es env h = Some r" by simp
  then show "\<exists>n. evalList (Eval n) es env h = Some r" ..
next
  assume "\<exists>n. evalList (Eval n) es env h = Some r"
  then obtain n where "evalList (Eval n) es env h = Some r" ..
  then have "Eval (Suc n) (List es) env h = Some r" by simp
  then show "evaluates (List es) env h r" by (rule evaluatesI)
qed

lemma evaluates_undefined:
  "evaluates (Symbol ''zzz'') 0 [\<lparr>bindings = Map.empty, parent = None\<rparr>]
     (Inl (UndefinedVariable ''zzz''), [\<lparr>bindings = Map.empty, parent = None\<rparr>])"
  by (rule evaluatesI [of 1]) (simp add: Lookup.simps)

section \<open>The conditional\<close>

lemma evalList_if:
  "evalList ev [Symbol ''if'', t, a, b] env h = evalIf ev [Symbol ''if'', t, a, b] env h"
  by (simp add: evalList_def)

lemma evalIf_4:
  "evalIf ev [Symbol ''if'', t, a, b] env h =
     (case ev t env h of
        None \<Rightarrow> None
      | Some (Inl err, h') \<Rightarrow> Some (Inl err, h')
      | Some (Inr v, h') \<Rightarrow> (if isTruthy v then ev a env h' else ev b env h'))"
  by (simp add: evalIf_def split: option.split prod.split sum.split)

lemma if_test_fails:
  assumes t: "evaluates t env h (Inl err, h')"
  shows "evaluates (List [Symbol ''if'', t, a, b]) env h r = (r = (Inl err, h'))"
proof
  assume "evaluates (List [Symbol ''if'', t, a, b]) env h r"
  then obtain n where n: "evalIf (Eval n) [Symbol ''if'', t, a, b] env h = Some r"
    by (auto simp: evaluates_List evalList_if)
  then obtain q where q: "Eval n t env h = Some q"
    by (cases "Eval n t env h") (simp_all add: evalIf_4)
  with t have "(Inl err, h') = q" by (rule_tac Eval_det)
  with n q show "r = (Inl err, h')" by (auto simp: evalIf_4)
next
  assume r: "r = (Inl err, h')"
  from t obtain n where "Eval n t env h = Some (Inl err, h')"
    by (auto simp: evaluates_def)
  with r have "evalIf (Eval n) [Symbol ''if'', t, a, b] env h = Some r"
    by (simp add: evalIf_4)
  then show "evaluates (List [Symbol ''if'', t, a, b]) env h r"
    unfolding evaluates_List evalList_if ..
qed

lemma if_test_succeeds:
  assumes t: "evaluates t env h (Inr v, h')"
  shows "evaluates (List [Symbol ''if'', t, a, b]) env h r
    = evaluates (if isTruthy v then a else b) env h' r"
proof
  assume "evaluates (List [Symbol ''if'', t, a, b]) env h r"
  then obtain n where n: "evalIf (Eval n) [Symbol ''if'', t, a, b] env h = Some r"
    by (auto simp: evaluates_List evalList_if)
  then obtain q where q: "Eval n t env h = Some q"
    by (cases "Eval n t env h") (simp_all add: evalIf_4)
  with t have "(Inr v, h') = q" by (rule_tac Eval_det)
  with n q have "Eval n (if isTruthy v then a else b) env h' = Some r"
    by (auto simp: evalIf_4 split: if_splits)
  then show "evaluates (if isTruthy v then a else b) env h' r" by (rule evaluatesI)
next
  assume "evaluates (if isTruthy v then a else b) env h' r"
  with t obtain n where "Eval n t env h = Some (Inr v, h')"
    and "Eval n (if isTruthy v then a else b) env h' = Some r"
    by (rule evaluates_both)
  then have "evalIf (Eval n) [Symbol ''if'', t, a, b] env h = Some r"
    by (simp add: evalIf_4 split: if_splits)
  then show "evaluates (List [Symbol ''if'', t, a, b]) env h r"
    unfolding evaluates_List evalList_if ..
qed

lemma if_needs_test:
  assumes "evaluates (List [Symbol ''if'', t, a, b]) env h r"
  shows "\<exists>q. evaluates t env h q"
proof -
  from assms obtain n where n: "evalIf (Eval n) [Symbol ''if'', t, a, b] env h = Some r"
    by (auto simp: evaluates_List evalList_if)
  then obtain q where q: "Eval n t env h = Some q"
    by (cases "Eval n t env h") (simp_all add: evalIf_4)
  then show ?thesis using evaluatesI by blast
qed

lemma isTruthy_iff: "isTruthy v = (v \<noteq> Bool False \<and> v \<noteq> Nil)"
  by (cases v) auto

text \<open>
  Claim C3. For \<^verbatim>\<open>(if test then else)\<close>: the test is evaluated first (the form has
  no result unless the test has one); if the test fails, its error and the store it
  leaves are the result; if it yields a truthy value the form returns exactly what
  \<^verbatim>\<open>then\<close> returns, started on the store the test leaves, whatever \<^verbatim>\<open>else\<close> is
  (even an expression that fails or never returns); otherwise it returns exactly
  what \<^verbatim>\<open>else\<close> returns, whatever \<^verbatim>\<open>then\<close> is. A value is falsy exactly when it
  is \<^verbatim>\<open>Bool(false)\<close> or \<^verbatim>\<open>Nil\<close>; \<^verbatim>\<open>Number(0)\<close>, the empty string and the empty
  list are truthy.
\<close>

theorem if_evaluates_one_branch:
  "(evaluates test env h (Inl err, h') \<longrightarrow>
      evaluates (List [Symbol ''if'', test, thn, els]) env h r = (r = (Inl err, h')))
   \<and> (evaluates test env h (Inr v, h') \<and> isTruthy v \<longrightarrow>
      evaluates (List [Symbol ''if'', test, thn, els]) env h r = evaluates thn env h' r)
   \<and> (evaluates test env h (Inr v, h') \<and> \<not> isTruthy v \<longrightarrow>
      evaluates (List [Symbol ''if'', test, thn, els]) env h r = evaluates els env h' r)
   \<and> (evaluates (List [Symbol ''if'', test, thn, els]) env h r \<longrightarrow>
      (\<exists>q. evaluates test env h q))
   \<and> isTruthy v = (v \<noteq> Bool False \<and> v \<noteq> Nil)
   \<and> isTruthy (Number 0) \<and> isTruthy (String []) \<and> isTruthy (List [])"
  using if_test_fails [of test env h err h' thn els r]
    if_test_succeeds [of test env h v h' thn els r]
    if_needs_test [of test thn els env h r] isTruthy_iff [of v]
  by simp

theorem if_evaluates_one_branch_witness:
  "evaluates (List [Symbol ''if'', Symbol ''zzz'', Number 1, Number 2])
      0 [\<lparr>bindings = Map.empty, parent = None\<rparr>]
      (Inl (UndefinedVariable ''zzz''), [\<lparr>bindings = Map.empty, parent = None\<rparr>])
   \<and> evaluates (List [Symbol ''if'', Bool True, Number 1, Symbol ''zzz''])
      0 [\<lparr>bindings = Map.empty, parent = None\<rparr>]
      (Inr (Number 1), [\<lparr>bindings = Map.empty, parent = None\<rparr>])
   \<and> evaluates (List [Symbol ''if'', Nil, Symbol ''zzz'', Number 2])
      0 [\<lparr>bindings = Map.empty, parent = None\<rparr>]
      (Inr (Number 2), [\<lparr>bindings = Map.empty, parent = None\<rparr>])"
  using
    if_evaluates_one_branch [where test = "Symbol ''zzz''" and env = 0
      and h = "[\<lparr>bindings = Map.empty, parent = None\<rparr>]"
      and err = "UndefinedVariable ''zzz''"
      and h' = "[\<lparr>bindings = Map.empty, parent = None\<rparr>]"
      and v = "Nil" and thn = "Number 1" and els = "Number 2"
      and r = "(Inl (UndefinedVariable ''zzz''), [\<lparr>bindings = Map.empty, parent = None\<rparr>])"]
    if_evaluates_one_branch [where test = "Bool True" and env = 0
      and h = "[\<lparr>bindings = Map.empty, parent = None\<rparr>]"
      and h' = "[\<lparr>bindings = Map.empty, parent = None\<rparr>]"
      and v = "Bool True" and thn = "Number 1" and els = "Symbol ''zzz''"
      and r = "(Inr (Number 1), [\<lparr>bindings = Map.empty, parent = None\<rparr>])"]
    if_evaluates_one_branch [where test = "Nil" and env = 0
      and h = "[\<lparr>bindings = Map.empty, parent = None\<rparr>]"
      and h' = "[\<lparr>bindings = Map.empty, parent = None\<rparr>]"
      and v = "Nil" and thn = "Symbol ''zzz''" and els = "Number 2"
      and r = "(Inr (Number 2), [\<lparr>bindings = Map.empty, parent = None\<rparr>])"]
    evaluates_undefined
  by (simp add: evaluates_literal)

section \<open>Function application\<close>

lemma evaluates_fuel:
  "evaluates e env h r \<Longrightarrow> \<exists>n. \<forall>m\<ge>n. Eval m e env h = Some r"
  using Eval_mono unfolding evaluates_def by blast

lemma ev_le_Eval: "n \<le> m \<Longrightarrow> ev_le (Eval n) (Eval m)"
  unfolding ev_le_def using Eval_mono by blast

lemma args_evaluate_fuel:
  "args_evaluate as env h vs h' \<Longrightarrow>
   \<exists>n. \<forall>m\<ge>n. evalApply_args (Eval m) as env h = Some (Inr vs, h')"
proof (induction as arbitrary: h vs)
  case Nil
  then show ?case by simp
next
  case (Cons a as)
  from Cons.prems obtain v vs' h1 where vs: "vs = v # vs'"
    and a: "evaluates a env h (Inr v, h1)" and rest: "args_evaluate as env h1 vs' h'"
    by auto
  from a obtain n1 where n1: "\<And>m. n1 \<le> m \<Longrightarrow> Eval m a env h = Some (Inr v, h1)"
    using evaluates_fuel by blast
  from Cons.IH [OF rest] obtain n2 where
    n2: "\<And>m. n2 \<le> m \<Longrightarrow> evalApply_args (Eval m) as env h1 = Some (Inr vs', h')"
    by blast
  have "\<forall>m\<ge>max n1 n2. evalApply_args (Eval m) (a # as) env h = Some (Inr vs, h')"
    using n1 n2 vs by simp
  then show ?case ..
qed

lemma args_evaluate_fails_fuel:
  "args_evaluate pre env h vs h2 \<Longrightarrow> evaluates b env h2 (Inl err, h3) \<Longrightarrow>
   \<exists>n. \<forall>m\<ge>n. evalApply_args (Eval m) (pre @ b # post) env h = Some (Inl err, h3)"
proof (induction pre arbitrary: h vs)
  case Nil
  then have b: "evaluates b env h (Inl err, h3)" by simp
  from b obtain n where "\<And>m. n \<le> m \<Longrightarrow> Eval m b env h = Some (Inl err, h3)"
    using evaluates_fuel by blast
  then have "\<forall>m\<ge>n. evalApply_args (Eval m) ([] @ b # post) env h = Some (Inl err, h3)"
    by simp
  then show ?case ..
next
  case (Cons a as)
  from Cons.prems(1) obtain v vs' h1 where vs: "vs = v # vs'"
    and a: "evaluates a env h (Inr v, h1)" and rest: "args_evaluate as env h1 vs' h2"
    by auto
  from a obtain n1 where n1: "\<And>m. n1 \<le> m \<Longrightarrow> Eval m a env h = Some (Inr v, h1)"
    using evaluates_fuel by blast
  from Cons.IH [OF rest Cons.prems(2)] obtain n2 where
    n2: "\<And>m. n2 \<le> m \<Longrightarrow>
      evalApply_args (Eval m) (as @ b # post) env h1 = Some (Inl err, h3)"
    by blast
  have "\<forall>m\<ge>max n1 n2.
    evalApply_args (Eval m) ((a # as) @ b # post) env h = Some (Inl err, h3)"
    using n1 n2 by simp
  then show ?case ..
qed

lemma evalList_apply:
  "\<not> is_special_form f \<Longrightarrow> evalList ev (f # args) env h = evalApply ev (f # args) env h"
  by (cases f) (auto simp: evalList_def is_special_form_def)

lemma evaluates_unique:
  "evaluates e env h r0 \<Longrightarrow> evaluates e env h r = (r = r0)"
  using evaluates_det by blast

lemma apply_head_fails:
  assumes f: "evaluates f env h (Inl err, h1)" and nsf: "\<not> is_special_form f"
  shows "evaluates (List (f # args)) env h (Inl err, h1)"
proof -
  from f obtain n where "Eval n f env h = Some (Inl err, h1)"
    by (auto simp: evaluates_def)
  then have "evalApply (Eval n) (f # args) env h = Some (Inl err, h1)"
    by (simp add: evalApply_def)
  with nsf have "Eval (Suc n) (List (f # args)) env h = Some (Inl err, h1)"
    by (simp add: evalList_apply)
  then show ?thesis by (rule evaluatesI)
qed

lemma apply_arg_fails:
  assumes f: "evaluates f env h (Inr fn, h1)" and nsf: "\<not> is_special_form f"
    and pre: "args_evaluate pre env h1 vs h2"
    and b: "evaluates b env h2 (Inl err, h3)"
  shows "evaluates (List (f # pre @ b # post)) env h (Inl err, h3)"
proof -
  from f obtain n1 where n1: "\<And>m. n1 \<le> m \<Longrightarrow> Eval m f env h = Some (Inr fn, h1)"
    using evaluates_fuel by blast
  from args_evaluate_fails_fuel [OF pre b] obtain n2 where
    n2: "\<And>m. n2 \<le> m \<Longrightarrow>
      evalApply_args (Eval m) (pre @ b # post) env h1 = Some (Inl err, h3)"
    by blast
  have "evalApply (Eval (max n1 n2)) (f # pre @ b # post) env h = Some (Inl err, h3)"
    using n1 [of "max n1 n2"] n2 [of "max n1 n2"] by (simp add: evalApply_def)
  with nsf have "Eval (Suc (max n1 n2)) (List (f # pre @ b # post)) env h = Some (Inl err, h3)"
    by (simp add: evalList_apply)
  then show ?thesis by (rule evaluatesI)
qed

lemma apply_not_callable:
  assumes f: "evaluates f env h (Inr fn, h1)" and nsf: "\<not> is_special_form f"
    and args: "args_evaluate args env h1 vs h2"
    and nc: "\<not> is_callable fn"
  shows "evaluates (List (f # args)) env h (Inl (NotCallable fn), h2)"
proof -
  from f obtain n1 where n1: "\<And>m. n1 \<le> m \<Longrightarrow> Eval m f env h = Some (Inr fn, h1)"
    using evaluates_fuel by blast
  from args_evaluate_fuel [OF args] obtain n2 where
    n2: "\<And>m. n2 \<le> m \<Longrightarrow> evalApply_args (Eval m) args env h1 = Some (Inr vs, h2)"
    by blast
  have "evalApply (Eval (max n1 n2)) (f # args) env h = Some (Inl (NotCallable fn), h2)"
    using n1 [of "max n1 n2"] n2 [of "max n1 n2"] nc
    by (cases fn) (simp_all add: evalApply_def)
  with nsf have
    "Eval (Suc (max n1 n2)) (List (f # args)) env h = Some (Inl (NotCallable fn), h2)"
    by (simp add: evalList_apply)
  then show ?thesis by (rule evaluatesI)
qed

lemma evaluates_Symbol:
  "evaluates (Symbol name) env h r = (\<exists>x. Lookup h env name = Some x \<and> r = (x, h))"
proof
  assume "evaluates (Symbol name) env h r"
  then obtain n where n: "Eval n (Symbol name) env h = Some r"
    by (auto simp: evaluates_def)
  then obtain m where "n = Suc m" by (cases n) simp_all
  with n show "\<exists>x. Lookup h env name = Some x \<and> r = (x, h)"
    by (cases "Lookup h env name") auto
next
  assume "\<exists>x. Lookup h env name = Some x \<and> r = (x, h)"
  then have "Eval (Suc 0) (Symbol name) env h = Some r" by auto
  then show "evaluates (Symbol name) env h r" by (rule evaluatesI)
qed

text \<open>
  Claim C5. In an application \<^verbatim>\<open>(f a1 ... an)\<close> whose head is not a special-form
  symbol, the head is evaluated first: if it fails, its error and the store it
  leaves are the result, whatever the arguments are. Then the arguments are
  evaluated from left to right, each on the store the previous evaluation leaves:
  if the arguments \<open>pre\<close> succeed and the next one fails, that error and that store
  are the result, whatever the arguments \<open>post\<close> after it are. If the head and all
  arguments succeed and the head's value is neither a \<^verbatim>\<open>Primitive\<close> nor a \<^verbatim>\<open>Func\<close>,
  the result is the error \<^verbatim>\<open>not a function\<close> naming that value. With \<^verbatim>\<open>foo\<close>
  unbound, \<^verbatim>\<open>(foo x y)\<close> fails with \<^verbatim>\<open>undefined variable: foo\<close> for all \<open>x\<close>, \<open>y\<close>
  and leaves the store as it was.
\<close>

theorem application_order:
  "(\<not> is_special_form f \<and> evaluates f env h (Inl err, ha) \<longrightarrow>
      evaluates (List (f # args)) env h r = (r = (Inl err, ha)))
   \<and> (\<not> is_special_form f \<and> evaluates f env h (Inr fn, ha)
        \<and> args_evaluate pre env ha vs hb \<and> evaluates b env hb (Inl err, hc) \<longrightarrow>
      evaluates (List (f # pre @ b # post)) env h r = (r = (Inl err, hc)))
   \<and> (\<not> is_special_form f \<and> evaluates f env h (Inr fn, ha)
        \<and> args_evaluate args env ha vs hb \<and> \<not> is_callable fn \<longrightarrow>
      evaluates (List (f # args)) env h r = (r = (Inl (NotCallable fn), hb)))
   \<and> (Lookup h env ''foo'' = Some (Inl (UndefinedVariable ''foo'')) \<longrightarrow>
      evaluates (List [Symbol ''foo'', x, y]) env h r
        = (r = (Inl (UndefinedVariable ''foo''), h)))"
proof (intro conjI impI)
  assume "\<not> is_special_form f \<and> evaluates f env h (Inl err, ha)"
  then have "evaluates (List (f # args)) env h (Inl err, ha)"
    using apply_head_fails by blast
  then show "evaluates (List (f # args)) env h r = (r = (Inl err, ha))"
    by (rule evaluates_unique)
next
  assume "\<not> is_special_form f \<and> evaluates f env h (Inr fn, ha)
        \<and> args_evaluate pre env ha vs hb \<and> evaluates b env hb (Inl err, hc)"
  then have "evaluates (List (f # pre @ b # post)) env h (Inl err, hc)"
    using apply_arg_fails by blast
  then show "evaluates (List (f # pre @ b # post)) env h r = (r = (Inl err, hc))"
    by (rule evaluates_unique)
next
  assume "\<not> is_special_form f \<and> evaluates f env h (Inr fn, ha)
        \<and> args_evaluate args env ha vs hb \<and> \<not> is_callable fn"
  then have "evaluates (List (f # args)) env h (Inl (NotCallable fn), hb)"
    using apply_not_callable by blast
  then show "evaluates (List (f # args)) env h r = (r = (Inl (NotCallable fn), hb))"
    by (rule evaluates_unique)
next
  assume "Lookup h env ''foo'' = Some (Inl (UndefinedVariable ''foo''))"
  then have "evaluates (Symbol ''foo'') env h (Inl (UndefinedVariable ''foo''), h)"
    by (simp add: evaluates_Symbol)
  moreover have "\<not> is_special_form (Symbol ''foo'')"
    by (simp add: is_special_form_def)
  ultimately have
    "evaluates (List [Symbol ''foo'', x, y]) env h (Inl (UndefinedVariable ''foo''), h)"
    using apply_head_fails by blast
  then show "evaluates (List [Symbol ''foo'', x, y]) env h r
        = (r = (Inl (UndefinedVariable ''foo''), h))"
    by (rule evaluates_unique)
qed

theorem application_order_witness:
  "evaluates (List [Symbol ''foo'', Number 1, Number 2])
      0 [\<lparr>bindings = Map.empty, parent = None\<rparr>]
      (Inl (UndefinedVariable ''foo''), [\<lparr>bindings = Map.empty, parent = None\<rparr>])
   \<and> evaluates (List [Symbol ''zzz'', Number 1, Number 2])
      0 [\<lparr>bindings = Map.empty, parent = None\<rparr>]
      (Inl (UndefinedVariable ''zzz''), [\<lparr>bindings = Map.empty, parent = None\<rparr>])
   \<and> evaluates (List [Number 7, Number 1, Symbol ''zzz'', Symbol ''yyy''])
      0 [\<lparr>bindings = Map.empty, parent = None\<rparr>]
      (Inl (UndefinedVariable ''zzz''), [\<lparr>bindings = Map.empty, parent = None\<rparr>])
   \<and> evaluates (List [Number 7, Number 1])
      0 [\<lparr>bindings = Map.empty, parent = None\<rparr>]
      (Inl (NotCallable (Number 7)), [\<lparr>bindings = Map.empty, parent = None\<rparr>])"
  using
    application_order [where f = "Symbol ''zzz''" and env = 0
      and h = "[\<lparr>bindings = Map.empty, parent = None\<rparr>]"
      and ha = "[\<lparr>bindings = Map.empty, parent = None\<rparr>]"
      and err = "UndefinedVariable ''zzz''" and args = "[Number 1, Number 2]"
      and x = "Number 1" and y = "Number 2"
      and r = "(Inl (UndefinedVariable ''foo''), [\<lparr>bindings = Map.empty, parent = None\<rparr>])"]
    application_order [where f = "Symbol ''zzz''" and env = 0
      and h = "[\<lparr>bindings = Map.empty, parent = None\<rparr>]"
      and ha = "[\<lparr>bindings = Map.empty, parent = None\<rparr>]"
      and err = "UndefinedVariable ''zzz''" and args = "[Number 1, Number 2]"
      and r = "(Inl (UndefinedVariable ''zzz''), [\<lparr>bindings = Map.empty, parent = None\<rparr>])"]
    application_order [where f = "Number 7" and env = 0 and fn = "Number 7"
      and h = "[\<lparr>bindings = Map.empty, parent = None\<rparr>]"
      and ha = "[\<lparr>bindings = Map.empty, parent = None\<rparr>]"
      and hb = "[\<lparr>bindings = Map.empty, parent = None\<rparr>]"
      and hc = "[\<lparr>bindings = Map.empty, parent = None\<rparr>]"
      and pre = "[Number 1]" and vs = "[Number 1]" and b = "Symbol ''zzz''"
      and post = "[Symbol ''yyy'']" and args = "[Number 1]"
      and err = "UndefinedVariable ''zzz''"
      and r = "(Inl (UndefinedVariable ''zzz''), [\<lparr>bindings = Map.empty, parent = None\<rparr>])"]
    application_order [where f = "Number 7" and env = 0 and fn = "Number 7"
      and h = "[\<lparr>bindings = Map.empty, parent = None\<rparr>]"
      and ha = "[\<lparr>bindings = Map.empty, parent = None\<rparr>]"
      and hb = "[\<lparr>bindings = Map.empty, parent = None\<rparr>]"
      and hc = "[\<lparr>bindings = Map.empty, parent = None\<rparr>]"
      and pre = "[Number 1]" and vs = "[Number 1]" and b = "Symbol ''zzz''"
      and post = "[Symbol ''yyy'']" and args = "[Number 1]"
      and err = "UndefinedVariable ''zzz''"
      and r = "(Inl (NotCallable (Number 7)), [\<lparr>bindings = Map.empty, parent = None\<rparr>])"]
    evaluates_undefined
  by (simp add: evaluates_literal is_special_form_def Lookup.simps)

section \<open>A failing define\<close>

lemma evalList_define:
  "evalList ev [Symbol ''define'', Symbol x, e] env h =
     (case ev e env h of
        None \<Rightarrow> None
      | Some (Inl err, h') \<Rightarrow> Some (Inl err, h')
      | Some (Inr v, h') \<Rightarrow> Some (Inr v, Define env x v h'))"
  by (simp add: evalList_def evalDefine_def split: option.split prod.split sum.split)

text \<open>
  Claim C10, as far as it holds. If evaluating \<open>e\<close> in \<open>env\<close> fails, then
  \<^verbatim>\<open>(define x e)\<close> fails with the same error and leaves exactly the store the
  failed evaluation of \<open>e\<close> leaves: the binding step of this \<^verbatim>\<open>define\<close> is not
  run. (What evaluating \<open>e\<close> itself did to the environments before it failed
  stays.)
\<close>

theorem define_error_skips_binding:
  "(evaluates e env h (Inl err, h') \<longrightarrow>
      evaluates (List [Symbol ''define'', Symbol x, e]) env h r = (r = (Inl err, h')))
   \<and> (Eval n e env h = Some (Inl err, h') \<longrightarrow>
      Eval (Suc n) (List [Symbol ''define'', Symbol x, e]) env h = Some (Inl err, h'))"
proof (intro conjI impI)
  assume "evaluates e env h (Inl err, h')"
  then obtain n where "Eval n e env h = Some (Inl err, h')"
    by (auto simp: evaluates_def)
  then have "Eval (Suc n) (List [Symbol ''define'', Symbol x, e]) env h = Some (Inl err, h')"
    by (simp add: evalList_define)
  then have "evaluates (List [Symbol ''define'', Symbol x, e]) env h (Inl err, h')"
    by (rule evaluatesI)
  then show "evaluates (List [Symbol ''define'', Symbol x, e]) env h r = (r = (Inl err, h'))"
    by (rule evaluates_unique)
next
  assume "Eval n e env h = Some (Inl err, h')"
  then show "Eval (Suc n) (List [Symbol ''define'', Symbol x, e]) env h = Some (Inl err, h')"
    by (simp add: evalList_define)
qed

theorem define_error_skips_binding_witness:
  "evaluates (List [Symbol ''define'', Symbol ''x'', Symbol ''zzz''])
      0 [\<lparr>bindings = Map.empty, parent = None\<rparr>]
      (Inl (UndefinedVariable ''zzz''), [\<lparr>bindings = Map.empty, parent = None\<rparr>])
   \<and> Eval 2 (List [Symbol ''define'', Symbol ''x'', Symbol ''zzz''])
      0 [\<lparr>bindings = Map.empty, parent = None\<rparr>]
      = Some (Inl (UndefinedVariable ''zzz''), [\<lparr>bindings = Map.empty, parent = None\<rparr>])"
  using
    define_error_skips_binding [where e = "Symbol ''zzz''" and env = 0
      and h = "[\<lparr>bindings = Map.empty, parent = None\<rparr>]"
      and h' = "[\<lparr>bindings = Map.empty, parent = None\<rparr>]"
      and err = "UndefinedVariable ''zzz''" and x = "''x''" and n = 1
      and r = "(Inl (UndefinedVariable ''zzz''), [\<lparr>bindings = Map.empty, parent = None\<rparr>])"]
    evaluates_undefined
  by (simp add: Lookup.simps eval_nat_numeral)

text \<open>
  Claim C10 as stated fails: the environment chain need not be unchanged after a
  failed \<^verbatim>\<open>define\<close>, and a binding of \<open>x\<close> can be created. In
  \<^verbatim>\<open>(define x ((define x 1)))\<close> the value expression \<^verbatim>\<open>((define x 1))\<close> binds \<open>x\<close>
  to 1 in the environment and then fails, since 1 is not a function; the outer
  \<^verbatim>\<open>define\<close> returns that error, and \<open>x\<close>, unbound before, is bound to 1.
\<close>

theorem define_nested_binding_counterexample:
  "Eval 3 (List [List [Symbol ''define'', Symbol ''x'', Number 1]])
      0 [\<lparr>bindings = Map.empty, parent = None\<rparr>]
     = Some (Inl (NotCallable (Number 1)),
             [\<lparr>bindings = [''x'' \<mapsto> Number 1], parent = None\<rparr>])
   \<and> Eval 4 (List [Symbol ''define'', Symbol ''x'',
                   List [List [Symbol ''define'', Symbol ''x'', Number 1]]])
      0 [\<lparr>bindings = Map.empty, parent = None\<rparr>]
     = Some (Inl (NotCallable (Number 1)),
             [\<lparr>bindings = [''x'' \<mapsto> Number 1], parent = None\<rparr>])
   \<and> bindings ([\<lparr>bindings = Map.empty, parent = None\<rparr>] ! 0) ''x'' = None
   \<and> bindings ([\<lparr>bindings = [''x'' \<mapsto> Number 1], parent = None\<rparr>] ! 0) ''x''
       = Some (Number 1)"
  by (simp add: eval_nat_numeral evalList_def evalDefine_def evalApply_def Define_def)

section \<open>Applying a closure\<close>

lemma Define_last:
  "Define (length h) name v (h @ [\<lparr>bindings = m, parent = p\<rparr>])
     = h @ [\<lparr>bindings = m(name \<mapsto> v), parent = p\<rparr>]"
  by (simp add: Define_def)

lemma fold_Define_last:
  "fold (\<lambda>(param, arg). Define (length h) param arg) kvs (h @ [\<lparr>bindings = m, parent = p\<rparr>])
     = h @ [\<lparr>bindings = m ++ map_of (rev kvs), parent = p\<rparr>]"
proof (induction kvs arbitrary: m)
  case Nil
  show ?case by simp
next
  case (Cons kv kvs)
  obtain k v where kv: "kv = (k, v)" by (cases kv)
  have "fold (\<lambda>(param, arg). Define (length h) param arg) (kv # kvs)
          (h @ [\<lparr>bindings = m, parent = p\<rparr>])
        = fold (\<lambda>(param, arg). Define (length h) param arg) kvs
          (h @ [\<lparr>bindings = m(k \<mapsto> v), parent = p\<rparr>])"
    by (simp add: kv Define_last)
  also have "\<dots> = h @ [\<lparr>bindings = m(k \<mapsto> v) ++ map_of (rev kvs), parent = p\<rparr>]"
    by (rule Cons)
  also have "m(k \<mapsto> v) ++ map_of (rev kvs) = m ++ map_of (rev (kv # kvs))"
    by (rule ext) (simp add: kv map_add_def split: option.split)
  finally show ?case .
qed

lemma applyFunc_eq:
  "applyFunc ev params body fenv args h =
     (if length args \<noteq> length params then
        Some (Inl (ArityError ''function'' (int (length params)) (int (length args))), h)
      else ev body (length h)
             (h @ [\<lparr>bindings = map_of (rev (zip params args)), parent = Some fenv\<rparr>]))"
  using fold_Define_last [of h "zip params args" Map.empty "Some fenv"]
  by (simp add: applyFunc_def Extend_def NewEnv_def)

lemma map_of_rev_zip_nth:
  "length args = length params \<Longrightarrow> i < length params \<Longrightarrow>
   params ! i \<notin> set (drop (Suc i) params) \<Longrightarrow>
   map_of (rev (zip params args)) (params ! i) = Some (args ! i)"
proof (induction params arbitrary: args i)
  case Nil
  then show ?case by simp
next
  case (Cons p ps)
  then obtain a as where args: "args = a # as" by (cases args) simp_all
  show ?case
  proof (cases i)
    case 0
    with Cons.prems args have "p \<notin> set ps" by simp
    then have "map_of (rev (zip ps as)) p = None"
      by (auto simp: map_of_eq_None_iff dest: set_zip_leftD)
    with 0 args show ?thesis by (simp add: map_add_def)
  next
    case (Suc j)
    with Cons.prems args have "map_of (rev (zip ps as)) (ps ! j) = Some (as ! j)"
      by (intro Cons.IH) simp_all
    with Suc args show ?thesis by (simp add: map_add_def)
  qed
qed

lemma dom_map_of_rev_zip:
  "length args = length params \<Longrightarrow> dom (map_of (rev (zip params args))) = set params"
  by (simp add: dom_map_of_conv_image_fst flip: set_map)

lemma args_evaluate_det:
  assumes "evalApply_args (Eval n) as env h = Some q" and "args_evaluate as env h vs h'"
  shows "q = (Inr vs, h')"
proof -
  from args_evaluate_fuel [OF assms(2)] obtain n2 where
    n2: "\<And>m. n2 \<le> m \<Longrightarrow> evalApply_args (Eval m) as env h = Some (Inr vs, h')"
    by blast
  have "ev_le (Eval n) (Eval (max n n2))" by (rule ev_le_Eval) simp
  then have "evalApply_args (Eval (max n n2)) as env h = Some q"
    using assms(1) by (rule evalApply_args_mono)
  with n2 [of "max n n2"] show ?thesis by simp
qed

lemma evaluates_closure_call:
  assumes nsf: "\<not> is_special_form f"
    and f: "evaluates f env h (Inr (Func params body fenv), ha)"
    and args: "args_evaluate as env ha args hb"
  shows "evaluates (List (f # as)) env h r =
    (if length args \<noteq> length params then
       r = (Inl (ArityError ''function'' (int (length params)) (int (length args))), hb)
     else evaluates body (length hb)
            (hb @ [\<lparr>bindings = map_of (rev (zip params args)), parent = Some fenv\<rparr>]) r)"
    (is "?lhs = ?rhs")
proof
  assume ?lhs
  then obtain n where n: "evalApply (Eval n) (f # as) env h = Some r"
    using nsf by (auto simp: evaluates_List evalList_apply)
  then obtain q where q: "Eval n f env h = Some q"
    by (cases "Eval n f env h") (simp_all add: evalApply_def)
  with f have q': "(Inr (Func params body fenv), ha) = q" by (rule_tac Eval_det)
  with n q obtain q2 where q2: "evalApply_args (Eval n) as env ha = Some q2"
    by (cases "evalApply_args (Eval n) as env ha") (auto simp: evalApply_def)
  then have "q2 = (Inr args, hb)" using args by (rule args_evaluate_det)
  with n q q' q2 have a: "applyFunc (Eval n) params body fenv args hb = Some r"
    by (auto simp: evalApply_def)
  show ?rhs
  proof (cases "length args \<noteq> length params")
    case True
    with a show ?thesis by (auto simp: applyFunc_eq)
  next
    case False
    with a have "Eval n body (length hb)
        (hb @ [\<lparr>bindings = map_of (rev (zip params args)), parent = Some fenv\<rparr>]) = Some r"
      by (simp add: applyFunc_eq)
    then have "evaluates body (length hb)
        (hb @ [\<lparr>bindings = map_of (rev (zip params args)), parent = Some fenv\<rparr>]) r"
      by (rule evaluatesI)
    with False show ?thesis by simp
  qed
next
  assume rhs: ?rhs
  from f obtain n1 where
    n1: "\<And>m. n1 \<le> m \<Longrightarrow> Eval m f env h = Some (Inr (Func params body fenv), ha)"
    using evaluates_fuel by blast
  from args_evaluate_fuel [OF args] obtain n2 where
    n2: "\<And>m. n2 \<le> m \<Longrightarrow> evalApply_args (Eval m) as env ha = Some (Inr args, hb)"
    by blast
  have "\<exists>n3. \<forall>m\<ge>n3. applyFunc (Eval m) params body fenv args hb = Some r"
  proof (cases "length args \<noteq> length params")
    case True
    with rhs show ?thesis by (simp add: applyFunc_eq)
  next
    case False
    with rhs have "evaluates body (length hb)
        (hb @ [\<lparr>bindings = map_of (rev (zip params args)), parent = Some fenv\<rparr>]) r"
      by simp
    with False show ?thesis
      using evaluates_fuel by (simp add: applyFunc_eq)
  qed
  then obtain n3 where
    n3: "\<And>m. n3 \<le> m \<Longrightarrow> applyFunc (Eval m) params body fenv args hb = Some r"
    by blast
  have "evalApply (Eval (max n1 (max n2 n3))) (f # as) env h = Some r"
    using n1 [of "max n1 (max n2 n3)"] n2 [of "max n1 (max n2 n3)"]
      n3 [of "max n1 (max n2 n3)"]
    by (simp add: evalApply_def)
  with nsf have "Eval (Suc (max n1 (max n2 n3))) (List (f # as)) env h = Some r"
    by (simp add: evalList_apply)
  then show ?lhs by (rule evaluatesI)
qed

lemma evaluates_bound:
  "e < length h \<Longrightarrow> bindings (h ! e) name = Some v \<Longrightarrow>
   evaluates (Symbol name) e h r = (r = (Inr v, h))"
  by (auto simp: evaluates_Symbol Lookup_bound)

text \<open>
  Claim C1. Applying a \<^verbatim>\<open>Func\<close> to a list of arguments: if the number of arguments
  is not the number of parameters, the result is the arity error and the store is
  untouched. Otherwise exactly one environment is added to the store, at a fresh
  address; its parent is the environment the \<^verbatim>\<open>Func\<close> captured (the calling
  environment \<open>env\<close> does not occur in it); it binds exactly the parameter names,
  each parameter to the argument at its position (of two parameters with one name,
  the later); every environment that existed before is unchanged; and the result
  of the application is exactly the result of the body in the new environment.
  The first conjunct is about \<^verbatim>\<open>applyFunc\<close> itself, the second about the
  evaluation of an application whose head evaluates to the \<^verbatim>\<open>Func\<close>.
\<close>

theorem closure_application:
  "applyFunc ev params body fenv args h =
     (if length args \<noteq> length params then
        Some (Inl (ArityError ''function'' (int (length params)) (int (length args))), h)
      else ev body (length h)
             (h @ [\<lparr>bindings = map_of (rev (zip params args)), parent = Some fenv\<rparr>]))
   \<and> (\<not> is_special_form f \<and> evaluates f env h (Inr (Func params body fenv), ha)
        \<and> args_evaluate as env ha args hb \<longrightarrow>
      evaluates (List (f # as)) env h r =
        (if length args \<noteq> length params then
           r = (Inl (ArityError ''function'' (int (length params)) (int (length args))), hb)
         else evaluates body (length hb)
                (hb @ [\<lparr>bindings = map_of (rev (zip params args)), parent = Some fenv\<rparr>]) r))
   \<and> (length args = length params \<longrightarrow>
        dom (map_of (rev (zip params args))) = set params)
   \<and> (length args = length params \<and> i < length params
        \<and> params ! i \<notin> set (drop (Suc i) params) \<longrightarrow>
        map_of (rev (zip params args)) (params ! i) = Some (args ! i))"
  using applyFunc_eq [of ev params body fenv args h]
    evaluates_closure_call [of f env h params body fenv ha as args hb r]
    dom_map_of_rev_zip [of args params] map_of_rev_zip_nth [of args params i]
  by blast

theorem closure_application_witness:
  "evaluates (List [Symbol ''f'', Number 5]) 1
      [\<lparr>bindings = [''f'' \<mapsto> Func [''x''] (Symbol ''y'') 0, ''y'' \<mapsto> Number 10],
         parent = None\<rparr>,
       \<lparr>bindings = [''y'' \<mapsto> Number 20], parent = Some 0\<rparr>]
      (Inr (Number 10),
       [\<lparr>bindings = [''f'' \<mapsto> Func [''x''] (Symbol ''y'') 0, ''y'' \<mapsto> Number 10],
          parent = None\<rparr>,
        \<lparr>bindings = [''y'' \<mapsto> Number 20], parent = Some 0\<rparr>,
        \<lparr>bindings = [''x'' \<mapsto> Number 5], parent = Some 0\<rparr>])
   \<and> evaluates (List [Symbol ''f'', Number 1, Number 2]) 1
      [\<lparr>bindings = [''f'' \<mapsto> Func [''x''] (Symbol ''y'') 0, ''y'' \<mapsto> Number 10],
         parent = None\<rparr>,
       \<lparr>bindings = [''y'' \<mapsto> Number 20], parent = Some 0\<rparr>]
      (Inl (ArityError ''function'' 1 2),
       [\<lparr>bindings = [''f'' \<mapsto> Func [''x''] (Symbol ''y'') 0, ''y'' \<mapsto> Number 10],
          parent = None\<rparr>,
        \<lparr>bindings = [''y'' \<mapsto> Number 20], parent = Some 0\<rparr>])
   \<and> map_of (rev (zip [''x''] [Number 5])) ''x'' = Some (Number 5)"
  using
    closure_application [where f = "Symbol ''f''" and env = 1
      and h = "[\<lparr>bindings = [''f'' \<mapsto> Func [''x''] (Symbol ''y'') 0, ''y'' \<mapsto> Number 10],
                  parent = None\<rparr>,
                \<lparr>bindings = [''y'' \<mapsto> Number 20], parent = Some 0\<rparr>]"
      and ha = "[\<lparr>bindings = [''f'' \<mapsto> Func [''x''] (Symbol ''y'') 0, ''y'' \<mapsto> Number 10],
                  parent = None\<rparr>,
                \<lparr>bindings = [''y'' \<mapsto> Number 20], parent = Some 0\<rparr>]"
      and hb = "[\<lparr>bindings = [''f'' \<mapsto> Func [''x''] (Symbol ''y'') 0, ''y'' \<mapsto> Number 10],
                  parent = None\<rparr>,
                \<lparr>bindings = [''y'' \<mapsto> Number 20], parent = Some 0\<rparr>]"
      and params = "[''x'']" and body = "Symbol ''y''" and fenv = 0
      and as = "[Number 5]" and args = "[Number 5]" and i = 0
      and r = "(Inr (Number 10),
       [\<lparr>bindings = [''f'' \<mapsto> Func [''x''] (Symbol ''y'') 0, ''y'' \<mapsto> Number 10],
          parent = None\<rparr>,
        \<lparr>bindings = [''y'' \<mapsto> Number 20], parent = Some 0\<rparr>,
        \<lparr>bindings = [''x'' \<mapsto> Number 5], parent = Some 0\<rparr>])"]
    closure_application [where f = "Symbol ''f''" and env = 1
      and h = "[\<lparr>bindings = [''f'' \<mapsto> Func [''x''] (Symbol ''y'') 0, ''y'' \<mapsto> Number 10],
                  parent = None\<rparr>,
                \<lparr>bindings = [''y'' \<mapsto> Number 20], parent = Some 0\<rparr>]"
      and ha = "[\<lparr>bindings = [''f'' \<mapsto> Func [''x''] (Symbol ''y'') 0, ''y'' \<mapsto> Number 10],
                  parent = None\<rparr>,
                \<lparr>bindings = [''y'' \<mapsto> Number 20], parent = Some 0\<rparr>]"
      and hb = "[\<lparr>bindings = [''f'' \<mapsto> Func [''x''] (Symbol ''y'') 0, ''y'' \<mapsto> Number 10],
                  parent = None\<rparr>,
                \<lparr>bindings = [''y'' \<mapsto> Number 20], parent = Some 0\<rparr>]"
      and params = "[''x'']" and body = "Symbol ''y''" and fenv = 0
      and as = "[Number 1, Number 2]" and args = "[Number 1, Number 2]"
      and r = "(Inl (ArityError ''function'' 1 2),
       [\<lparr>bindings = [''f'' \<mapsto> Func [''x''] (Symbol ''y'') 0, ''y'' \<mapsto> Number 10],
          parent = None\<rparr>,
        \<lparr>bindings = [''y'' \<mapsto> Number 20], parent = Some 0\<rparr>])"]
  by (simp add: evaluates_literal is_special_form_def evaluates_Symbol Lookup.simps)

section \<open>Closures capture their environment by reference\<close>

lemma evalList_lambda:
  "evalLambda_params ps = Inr params \<Longrightarrow>
   evalList ev [Symbol ''lambda'', List ps, body] env h = Some (Inr (Func params body env), h)"
  by (simp add: evalList_def evalLambda_def)

text \<open>
  Claim C2. \<^verbatim>\<open>lambda\<close> returns a \<^verbatim>\<open>Func\<close> that holds the address of the very
  environment it was evaluated in (no environment is allocated or copied: the store
  is unchanged) and the body expression as written, whatever it is and with any
  fuel, so the body is not evaluated. And when the name \<open>x\<close>, not a parameter, is
  redefined to \<open>v\<close> in that environment at any later time, an application of the
  closure whose body looks \<open>x\<close> up returns \<open>v\<close>, whatever \<open>x\<close> was bound to when
  the closure was created.
\<close>

theorem closure_captures_by_reference:
  "(evalLambda_params ps = Inr params \<longrightarrow>
      Eval (Suc n) (List [Symbol ''lambda'', List ps, body]) env h
        = Some (Inr (Func params body env), h))
   \<and> (env < length h' \<and> length args = length params \<and> x \<notin> set params \<longrightarrow>
      applyFunc (Eval (Suc n)) params (Symbol x) env args (Define env x v h')
        = Some (Inr v,
                Define env x v h'
                  @ [\<lparr>bindings = map_of (rev (zip params args)), parent = Some env\<rparr>]))"
proof (intro conjI impI)
  assume "evalLambda_params ps = Inr params"
  then show "Eval (Suc n) (List [Symbol ''lambda'', List ps, body]) env h
        = Some (Inr (Func params body env), h)"
    by (simp add: evalList_lambda)
next
  let ?child = "\<lparr>bindings = map_of (rev (zip params args)), parent = Some env\<rparr>"
  let ?h = "Define env x v h'"
  assume a: "env < length h' \<and> length args = length params \<and> x \<notin> set params"
  then have len: "length ?h = length h'" and env: "env < length ?h"
    by (simp_all add: length_Define)
  from a have "map_of (rev (zip params args)) x = None"
    by (auto simp: map_of_eq_None_iff dest: set_zip_leftD)
  then have "Lookup (?h @ [?child]) (length ?h) x = Lookup (?h @ [?child]) env x"
    by (subst Lookup.simps) simp
  also have "bindings ((?h @ [?child]) ! env) x = Some v"
    using a by (simp add: nth_append length_Define Define_nth_same)
  then have "Lookup (?h @ [?child]) env x = Some (Inr v)"
    using env by (intro Lookup_bound) simp_all
  finally have "Eval (Suc n) (Symbol x) (length ?h) (?h @ [?child]) = Some (Inr v, ?h @ [?child])"
    by simp
  with a show "applyFunc (Eval (Suc n)) params (Symbol x) env args ?h
        = Some (Inr v, ?h @ [?child])"
    by (simp add: applyFunc_eq)
qed

theorem closure_captures_by_reference_witness:
  "Eval 1 (List [Symbol ''lambda'', List [], Symbol ''x''])
      0 [\<lparr>bindings = [''x'' \<mapsto> Number 1], parent = None\<rparr>]
     = Some (Inr (Func [] (Symbol ''x'') 0),
             [\<lparr>bindings = [''x'' \<mapsto> Number 1], parent = None\<rparr>])
   \<and> applyFunc (Eval 1) [] (Symbol ''x'') 0 []
       (Define 0 ''x'' (Number 2) [\<lparr>bindings = [''x'' \<mapsto> Number 1], parent = None\<rparr>])
     = Some (Inr (Number 2),
             [\<lparr>bindings = [''x'' \<mapsto> Number 2], parent = None\<rparr>,
              \<lparr>bindings = Map.empty, parent = Some 0\<rparr>])"
  using
    closure_captures_by_reference [where ps = "[]" and params = "[]" and n = 0
      and body = "Symbol ''x''" and env = 0
      and h = "[\<lparr>bindings = [''x'' \<mapsto> Number 1], parent = None\<rparr>]"
      and h' = "[\<lparr>bindings = [''x'' \<mapsto> Number 1], parent = None\<rparr>]"
      and args = "[]" and x = "''x''" and v = "Number 2"]
  by (simp add: Define_def)

section \<open>Assignment searches the chain\<close>

lemma Set_env_keeps_shape:
  assumes "wf_store h" and "e < length h" and "Set_env h e name v = Some (err, h')"
  shows "length h' = length h
    \<and> map (\<lambda>s. dom (bindings s)) h' = map (\<lambda>s. dom (bindings s)) h
    \<and> map parent h' = map parent h"
proof (cases "find (binds h name) (chain h e)")
  case None
  with assms show ?thesis by (simp add: Set_env_find)
next
  case (Some s)
  with assms have h': "h' = Define s name v h" by (simp add: Set_env_find)
  from Some have b: "binds h name s" by (auto simp: find_Some_iff)
  then have "insert name (dom (bindings (h ! s))) = dom (bindings (h ! s))"
    by (auto simp: binds_def)
  then show ?thesis
    unfolding h' Define_def
    by (cases "s < length h") (simp_all add: map_update list_update_same_conv list_update_beyond)
qed

lemma Set_env_undefined:
  assumes "wf_store h" and "e < length h"
  shows "(Set_env h e name v = Some (Some (UndefinedVariable name), h))
    = (list_all (\<lambda>s. bindings (h ! s) name = None) (chain h e))"
proof (cases "find (binds h name) (chain h e)")
  case None
  then have "list_all (\<lambda>s. bindings (h ! s) name = None) (chain h e)"
    by (auto simp: find_None_iff binds_def list_all_iff)
  with None assms show ?thesis by (simp add: Set_env_find)
next
  case (Some s)
  then have "\<not> list_all (\<lambda>s. bindings (h ! s) name = None) (chain h e)"
    by (auto simp: find_Some_iff binds_def list_all_iff)
  with Some assms show ?thesis by (simp add: Set_env_find)
qed

text \<open>
  Claim C6. On a store as Go builds it, \<^verbatim>\<open>Set\<close> called on environment \<open>e\<close> looks
  for \<open>name\<close> in \<open>e\<close>, then in its parent, and so on to the root; it rewrites the
  binding in the first scope that has one, in that scope, and returns no error; if
  no scope of the chain binds \<open>name\<close> it returns \<^verbatim>\<open>undefined variable: name\<close> and
  the store is exactly the one it was called on. It fails that way exactly when no
  scope of the chain binds \<open>name\<close>. Whatever it returns, it allocates nothing, and
  every environment keeps its set of bound names and its parent: no binding is
  created.
\<close>

theorem Set_env_first_binding:
  "(wf_store h \<and> e < length h \<longrightarrow>
      Set_env h e name v =
        Some (case find (binds h name) (chain h e) of
                Some s \<Rightarrow> (None, Define s name v h)
              | None \<Rightarrow> (Some (UndefinedVariable name), h)))
   \<and> (wf_store h \<and> e < length h \<longrightarrow>
      (Set_env h e name v = Some (Some (UndefinedVariable name), h))
        = list_all (\<lambda>s. bindings (h ! s) name = None) (chain h e))
   \<and> (wf_store h \<and> e < length h \<and> Set_env h e name v = Some (err, h') \<longrightarrow>
      length h' = length h
      \<and> map (\<lambda>s. dom (bindings s)) h' = map (\<lambda>s. dom (bindings s)) h
      \<and> map parent h' = map parent h)"
  using Set_env_find [of h e name v] Set_env_undefined [of h e name v]
    Set_env_keeps_shape [of h e name v err h']
  by blast

theorem Set_env_first_binding_witness:
  "Set_env [\<lparr>bindings = [''x'' \<mapsto> Number 1], parent = None\<rparr>,
            \<lparr>bindings = [''x'' \<mapsto> Number 2], parent = Some 0\<rparr>,
            \<lparr>bindings = [''y'' \<mapsto> Number 3], parent = Some 1\<rparr>] 2 ''x'' (Number 9)
     = Some (None,
           [\<lparr>bindings = [''x'' \<mapsto> Number 1], parent = None\<rparr>,
            \<lparr>bindings = [''x'' \<mapsto> Number 9], parent = Some 0\<rparr>,
            \<lparr>bindings = [''y'' \<mapsto> Number 3], parent = Some 1\<rparr>])
   \<and> Set_env [\<lparr>bindings = [''x'' \<mapsto> Number 1], parent = None\<rparr>,
            \<lparr>bindings = [''x'' \<mapsto> Number 2], parent = Some 0\<rparr>,
            \<lparr>bindings = [''y'' \<mapsto> Number 3], parent = Some 1\<rparr>] 2 ''z'' (Number 9)
     = Some (Some (UndefinedVariable ''z''),
           [\<lparr>bindings = [''x'' \<mapsto> Number 1], parent = None\<rparr>,
            \<lparr>bindings = [''x'' \<mapsto> Number 2], parent = Some 0\<rparr>,
            \<lparr>bindings = [''y'' \<mapsto> Number 3], parent = Some 1\<rparr>])"
  using
    Set_env_first_binding [where e = 2 and name = "''x''" and v = "Number 9"
      and h = "[\<lparr>bindings = [''x'' \<mapsto> Number 1], parent = None\<rparr>,
            \<lparr>bindings = [''x'' \<mapsto> Number 2], parent = Some 0\<rparr>,
            \<lparr>bindings = [''y'' \<mapsto> Number 3], parent = Some 1\<rparr>]"
      and err = None
      and h' = "[\<lparr>bindings = [''x'' \<mapsto> Number 1], parent = None\<rparr>,
            \<lparr>bindings = [''x'' \<mapsto> Number 9], parent = Some 0\<rparr>,
            \<lparr>bindings = [''y'' \<mapsto> Number 3], parent = Some 1\<rparr>]"]
    Set_env_first_binding [where e = 2 and name = "''z''" and v = "Number 9"
      and h = "[\<lparr>bindings = [''x'' \<mapsto> Number 1], parent = None\<rparr>,
            \<lparr>bindings = [''x'' \<mapsto> Number 2], parent = Some 0\<rparr>,
            \<lparr>bindings = [''y'' \<mapsto> Number 3], parent = Some 1\<rparr>]"
      and err = "Some (UndefinedVariable ''z'')"
      and h' = "[\<lparr>bindings = [''x'' \<mapsto> Number 1], parent = None\<rparr>,
            \<lparr>bindings = [''x'' \<mapsto> Number 2], parent = Some 0\<rparr>,
            \<lparr>bindings = [''y'' \<mapsto> Number 3], parent = Some 1\<rparr>]"]
  by (simp add: wf_store_def chain.simps binds_def Define_def)

section \<open>Shadowing\<close>

lemma Extend_eq: "Extend p h = (length h, h @ [\<lparr>bindings = Map.empty, parent = Some p\<rparr>])"
  by (simp add: Extend_def NewEnv_def)

lemma shadow_in_child:
  assumes "c < length h" and "p < length h" and "c \<noteq> p"
    and "bindings (h ! p) x = Some vp"
  shows "Lookup (Define c x vc h) c x = Some (Inr vc)"
    and "Lookup (Define c x vc h) p x = Some (Inr vp)"
    and "Define c x vc h ! p = h ! p"
  using assms
  by (simp_all add: Lookup_bound length_Define Define_nth_same Define_nth_other)

lemma shadow_after_Extend:
  assumes p: "p < length h" and x: "bindings (h ! p) x = Some vp"
    and e: "Extend p h = (c, hc)"
  shows "Lookup (Define c x vc hc) c x = Some (Inr vc)
     \<and> Lookup (Define c x vc hc) p x = Some (Inr vp)
     \<and> Define c x vc hc ! p = h ! p
     \<and> Lookup h p x = Some (Inr vp)
     \<and> parent (hc ! c) = Some p"
proof -
  from e have c: "c = length h" and hc: "hc = h @ [\<lparr>bindings = Map.empty, parent = Some p\<rparr>]"
    by (simp_all add: Extend_eq)
  have 1: "c < length hc" "p < length hc" "c \<noteq> p" using p c hc by simp_all
  have 2: "bindings (hc ! p) x = Some vp" using p x hc by (simp add: nth_append)
  have "Define c x vc hc ! p = hc ! p" using 1 by (simp add: Define_nth_other)
  then have 3: "Define c x vc hc ! p = h ! p" using p hc by (simp add: nth_append)
  have 4: "parent (hc ! c) = Some p" using c hc by simp
  from shadow_in_child(1,2) [OF 1 2] 3 4 Lookup_bound [OF p x] show ?thesis by simp
qed

text \<open>
  Claim C7. Let \<open>p\<close> bind \<open>x\<close> to \<open>vp\<close>, and let \<open>c\<close> be the child \<open>Extend\<close>
  returns for \<open>p\<close>. After \<^verbatim>\<open>c.Define(x, vc)\<close>, \<^verbatim>\<open>Lookup\<close> of \<open>x\<close> in \<open>c\<close> returns
  \<open>vc\<close>, the environment \<open>p\<close> is exactly what it was, and \<^verbatim>\<open>Lookup\<close> of \<open>x\<close> in
  \<open>p\<close> still returns \<open>vp\<close>. The same holds of any two distinct environments \<open>c\<close>
  and \<open>p\<close> of a store. \<^verbatim>\<open>Define\<close> on \<open>e\<close> changes no other environment, in \<open>e\<close>
  it changes the binding of that one name only, and it allocates nothing. On a
  store as Go builds it, \<^verbatim>\<open>Lookup\<close> returns the binding of the first scope, from
  \<open>e\<close> outwards, that binds the name, and \<^verbatim>\<open>undefined variable\<close> if none does.
\<close>

theorem define_shadows_parent:
  "(p < length h \<and> bindings (h ! p) x = Some vp \<and> Extend p h = (c, hc) \<longrightarrow>
      Lookup (Define c x vc hc) c x = Some (Inr vc)
      \<and> Lookup (Define c x vc hc) p x = Some (Inr vp)
      \<and> Define c x vc hc ! p = h ! p
      \<and> Lookup h p x = Some (Inr vp)
      \<and> parent (hc ! c) = Some p)
   \<and> (c < length h \<and> p < length h \<and> c \<noteq> p \<and> bindings (h ! p) x = Some vp \<longrightarrow>
      Lookup (Define c x vc h) c x = Some (Inr vc)
      \<and> Lookup (Define c x vc h) p x = Some (Inr vp)
      \<and> Define c x vc h ! p = h ! p)
   \<and> (a \<noteq> e \<longrightarrow> Define e name v h ! a = h ! a)
   \<and> (e < length h \<longrightarrow>
      Define e name v h ! e = (h ! e)\<lparr>bindings := (bindings (h ! e))(name \<mapsto> v)\<rparr>)
   \<and> length (Define e name v h) = length h
   \<and> (wf_store h \<and> e < length h \<longrightarrow>
      Lookup h e name =
        Some (case find (binds h name) (chain h e) of
                Some s \<Rightarrow> Inr (the (bindings (h ! s) name))
              | None \<Rightarrow> Inl (UndefinedVariable name)))"
  using shadow_after_Extend [of p h x vp c hc vc] shadow_in_child [of c h p x vp vc]
    Define_nth_other [of a e name v h] Define_nth_same [of e h name v]
    length_Define [of e name v h] Lookup_find [of h e name]
  by blast

theorem define_shadows_parent_witness:
  "Lookup (Define 1 ''x'' (Number 17)
             [\<lparr>bindings = [''x'' \<mapsto> Number 42], parent = None\<rparr>,
              \<lparr>bindings = Map.empty, parent = Some 0\<rparr>]) 1 ''x'' = Some (Inr (Number 17))
   \<and> Lookup (Define 1 ''x'' (Number 17)
             [\<lparr>bindings = [''x'' \<mapsto> Number 42], parent = None\<rparr>,
              \<lparr>bindings = Map.empty, parent = Some 0\<rparr>]) 0 ''x'' = Some (Inr (Number 42))
   \<and> Define 1 ''x'' (Number 17)
             [\<lparr>bindings = [''x'' \<mapsto> Number 42], parent = None\<rparr>,
              \<lparr>bindings = Map.empty, parent = Some 0\<rparr>] ! 0
       = \<lparr>bindings = [''x'' \<mapsto> Number 42], parent = None\<rparr>
   \<and> Lookup [\<lparr>bindings = [''x'' \<mapsto> Number 42], parent = None\<rparr>,
              \<lparr>bindings = Map.empty, parent = Some 0\<rparr>] 1 ''x'' = Some (Inr (Number 42))"
  using
    define_shadows_parent [where p = 0 and x = "''x''" and vp = "Number 42"
      and vc = "Number 17" and c = 1
      and h = "[\<lparr>bindings = [''x'' \<mapsto> Number 42], parent = None\<rparr>]"
      and hc = "[\<lparr>bindings = [''x'' \<mapsto> Number 42], parent = None\<rparr>,
              \<lparr>bindings = Map.empty, parent = Some 0\<rparr>]"
      and e = 0 and a = 1 and name = "''x''" and v = "Number 42"]
    define_shadows_parent [where p = 0 and x = "''x''" and vp = "Number 42"
      and vc = "Number 17" and c = 1
      and h = "[\<lparr>bindings = [''x'' \<mapsto> Number 42], parent = None\<rparr>,
              \<lparr>bindings = Map.empty, parent = Some 0\<rparr>]"
      and e = 1 and a = 0 and name = "''x''" and v = "Number 17"]
  by (simp add: Extend_eq wf_store_def chain.simps binds_def)

section \<open>Division\<close>

lemma primDiv_loop_zero:
  "(primDiv_loop acc xs = Inl DivisionByZero)
     = (\<exists>pre post. xs = map Number pre @ Number 0 # post)"
proof (induction xs arbitrary: acc)
  case Nil
  show ?case by simp
next
  case (Cons x xs)
  show ?case
  proof (cases x)
    case (Number n)
    show ?thesis
    proof (cases "n = 0")
      case True
      have "Number n # xs = map Number [] @ Number 0 # xs" using True by simp
      then have "\<exists>pre post. Number n # xs = map Number pre @ Number 0 # post" by blast
      with True Number show ?thesis by simp
    next
      case False
      have "(\<exists>pre post. Number n # xs = map Number pre @ Number 0 # post)
          = (\<exists>pre post. xs = map Number pre @ Number 0 # post)"
      proof
        assume "\<exists>pre post. Number n # xs = map Number pre @ Number 0 # post"
        then obtain pre post where e: "Number n # xs = map Number pre @ Number 0 # post"
          by blast
        with False obtain p pre' where "pre = p # pre'" by (cases pre) auto
        with e have "xs = map Number pre' @ Number 0 # post" by simp
        then show "\<exists>pre post. xs = map Number pre @ Number 0 # post" by blast
      next
        assume "\<exists>pre post. xs = map Number pre @ Number 0 # post"
        then obtain pre post where "xs = map Number pre @ Number 0 # post" by blast
        then have "Number n # xs = map Number (n # pre) @ Number 0 # post" by simp
        then show "\<exists>pre post. Number n # xs = map Number pre @ Number 0 # post" by blast
      qed
      with False Number Cons.IH show ?thesis by simp
    qed
  qed (auto simp: Cons_eq_append_conv Cons_eq_map_conv)
qed

lemma primDiv_zero_iff:
  "(primDiv args = Inl DivisionByZero)
     = (args = [Number 0]
        \<or> (\<exists>first pre post. args = Number first # map Number pre @ Number 0 # post))"
proof (cases args)
  case Nil
  then show ?thesis by simp
next
  case (Cons x rest)
  show ?thesis
  proof (cases x)
    case (Number first)
    show ?thesis
    proof (cases rest)
      case Nil
      with Cons Number show ?thesis by auto
    next
      case rest: (Cons y ys)
      with Cons Number show ?thesis
        by (simp add: primDiv_loop_zero)
    qed
  qed (use Cons in auto)
qed

lemma primDiv_numbers_zero_iff:
  "(primDiv (map Number ns) = Inl DivisionByZero)
     = (ns = [0] \<or> (2 \<le> length ns \<and> 0 \<in> set (tl ns)))"
proof (cases ns)
  case Nil
  then show ?thesis by simp
next
  case (Cons n rest)
  show ?thesis
  proof (cases rest)
    case Nil
    with Cons show ?thesis by simp
  next
    case rest: (Cons m ms)
    have "(\<exists>pre post. map Number rest = map Number pre @ Number 0 # post) = (0 \<in> set rest)"
    proof
      assume "\<exists>pre post. map Number rest = map Number pre @ Number 0 # post"
      then obtain pre post where "map Number rest = map Number pre @ Number 0 # post"
        by blast
      then have "Number 0 \<in> set (map Number rest)" by simp
      then show "0 \<in> set rest" by auto
    next
      assume "0 \<in> set rest"
      then obtain pre post where "rest = pre @ 0 # post"
        by (auto simp: in_set_conv_decomp)
      then have "map Number rest = map Number pre @ Number 0 # map Number post" by simp
      then show "\<exists>pre post. map Number rest = map Number pre @ Number 0 # post" by blast
    qed
    with Cons rest show ?thesis
      using primDiv_loop_zero [of n "map Number rest"] by simp
  qed
qed

lemma sint_one_64: "sint (1 :: 64 word) = 1"
  by simp

lemma one_sdiv:
  "(1::int) sdiv k = (if k = 1 then 1 else if k = - 1 then - 1 else 0)"
  by (auto simp: signed_divide_int_def sgn_if)

lemma int64_div_one:
  "sint (int64_div 1 n) = 1 sdiv sint n"
  by (simp add: int64_div_def one_sdiv)

lemma int64_div_one_big:
  assumes "1 < sint n \<or> sint n < - 1"
  shows "int64_div 1 n = 0"
  using assms by (auto simp: int64_div_def one_sdiv)

text \<open>
  Claim C4, as far as it holds. When every operand is a \<^verbatim>\<open>Number\<close>, \<^verbatim>\<open>/\<close> fails
  with the division-by-zero error exactly when a divisor is zero: the one operand
  when there is one, an operand after the first when there are two or more. In
  general it fails so exactly when the operands start with \<^verbatim>\<open>Number\<close>s up to a
  zero divisor. For a nonzero \<open>n\<close>, \<^verbatim>\<open>(/ n)\<close> returns the quotient of 1 by \<open>n\<close>
  truncated towards zero, which is 0 whenever \<open>n\<close> is greater than 1 or less than
  \<open>-1\<close>.
\<close>

theorem primDiv_division_by_zero:
  "(primDiv (map Number ns) = Inl DivisionByZero)
     = (ns = [0] \<or> (2 \<le> length ns \<and> 0 \<in> set (tl ns)))
   \<and> (primDiv args = Inl DivisionByZero)
     = (args = [Number 0]
        \<or> (\<exists>first pre post. args = Number first # map Number pre @ Number 0 # post))
   \<and> (n \<noteq> 0 \<longrightarrow>
        primDiv [Number n] = Inr (Number (int64_div 1 n))
        \<and> sint (int64_div 1 n) = 1 sdiv sint n)
   \<and> (1 < sint n \<or> sint n < - 1 \<longrightarrow> primDiv [Number n] = Inr (Number 0))"
proof -
  have "1 < sint n \<or> sint n < - 1 \<Longrightarrow> n \<noteq> 0" by auto
  then show ?thesis
    using primDiv_numbers_zero_iff [of ns] primDiv_zero_iff [of args]
      int64_div_one [of n] int64_div_one_big [of n]
    by auto
qed

theorem primDiv_division_by_zero_witness:
  "primDiv [Number 5] = Inr (Number 0)
   \<and> primDiv [Number (- 5)] = Inr (Number 0)
   \<and> primDiv [Number 1] = Inr (Number 1)
   \<and> primDiv [Number (- 1)] = Inr (Number (- 1))
   \<and> primDiv [Number 8, Number 2, Number 0] = Inl DivisionByZero
   \<and> primDiv [Number 0] = Inl DivisionByZero"
  using primDiv_division_by_zero [where n = 5 and ns = "[8, 2, 0]" and args = "[Number 0]"]
    primDiv_division_by_zero [where n = "- 5" and ns = "[0]" and args = "[Number 0]"]
    primDiv_division_by_zero [where n = 1 and ns = "[0]" and args = "[Number 0]"]
    primDiv_division_by_zero [where n = "- 1" and ns = "[0]" and args = "[Number 0]"]
  by (simp add: int64_div_def one_sdiv)

text \<open>
  Claim C4 as stated fails: a zero divisor does not make \<^verbatim>\<open>/\<close> fail with
  division by zero when an operand before it is not a \<^verbatim>\<open>Number\<close>. The operands are
  checked from left to right, and \<^verbatim>\<open>(/ 1 "a" 0)\<close> and \<^verbatim>\<open>(/ "a" 0)\<close> fail with
  \<^verbatim>\<open>/: expected number\<close>.
\<close>

theorem primDiv_type_error_counterexample:
  "primDiv [Number 1, String ''a'', Number 0] = Inl (ExpectedNumber ''/'' (String ''a''))
   \<and> primDiv [Number 1, String ''a'', Number 0] \<noteq> Inl DivisionByZero
   \<and> primDiv [String ''a'', Number 0] = Inl (ExpectedNumber ''/'' (String ''a''))
   \<and> primDiv [String ''a'', Number 0] \<noteq> Inl DivisionByZero"
  by simp

end
